theory Spec2Isabelle
  imports Complex_Main
begin

section \<open>SRGAN training script (train.py): gradient check and training orchestration\<close>

text \<open>
  The script is a thin orchestration layer over a tensor library. The embedding keeps the
  control flow of \<^verbatim>\<open>check_grads\<close> and of \<^verbatim>\<open>main\<close> (from the pretraining
  phase on) as it is written. Everything the tensor library computes on tensors, in float32
  and in an order of operations of its own, is a parameter of the model: the forward and
  backward passes, the optimizer updates, the loss items, the mean of a gradient tensor, the
  SSIM oracle and the image conversion. The model never recomputes such a value from the
  tensor's elements.

  Numbers: a Python float is a real number, an infinity or NaN. The arithmetic the script
  itself does on Python floats (the sums and quotients of the metrics cache, the numpy mean of
  the per-parameter means, the PSNR formula) is modelled without rounding.
\<close>

subsection \<open>Python values\<close>

datatype pyfloat = Fin real | PInf | NInf | NaN

datatype error =
    ZeroDivisionError
  | ValueError
  | RuntimeError
  | FileNotFoundError string

text \<open>Float addition: NaN is absorbing, and so is the sum of opposite infinities.\<close>

fun fadd :: "pyfloat \<Rightarrow> pyfloat \<Rightarrow> pyfloat" where
  "fadd (Fin x) (Fin y) = Fin (x + y)"
| "fadd NaN _ = NaN"
| "fadd _ NaN = NaN"
| "fadd PInf NInf = NaN"
| "fadd NInf PInf = NaN"
| "fadd PInf _ = PInf"
| "fadd _ PInf = PInf"
| "fadd NInf _ = NInf"
| "fadd _ NInf = NInf"

text \<open>Multiplication of a float by a finite number.\<close>

fun fscale :: "real \<Rightarrow> pyfloat \<Rightarrow> pyfloat" where
  "fscale c (Fin x) = Fin (c * x)"
| "fscale c NaN = NaN"
| "fscale c PInf = (if c = 0 then NaN else if 0 < c then PInf else NInf)"
| "fscale c NInf = (if c = 0 then NaN else if 0 < c then NInf else PInf)"

text \<open>
  \<^verbatim>\<open>a > t\<close> and \<^verbatim>\<open>a <= t\<close> against a finite threshold: every comparison with NaN
  is false.
\<close>

fun fgt :: "pyfloat \<Rightarrow> real \<Rightarrow> bool" where
  "fgt (Fin x) t = (x > t)"
| "fgt PInf t = True"
| "fgt NInf t = False"
| "fgt NaN t = False"

fun fle :: "pyfloat \<Rightarrow> real \<Rightarrow> bool" where
  "fle (Fin x) t = (x \<le> t)"
| "fle PInf t = False"
| "fle NInf t = True"
| "fle NaN t = False"

text \<open>\<^verbatim>\<open>a / b\<close> on Python floats raises on a zero divisor, whatever the dividend.\<close>

fun py_truediv :: "pyfloat \<Rightarrow> pyfloat \<Rightarrow> error + pyfloat" where
  "py_truediv a (Fin y) =
     (if y = 0 then Inl ZeroDivisionError
      else (case a of
              Fin x \<Rightarrow> Inr (Fin (x / y))
            | PInf \<Rightarrow> Inr (if 0 < y then PInf else NInf)
            | NInf \<Rightarrow> Inr (if 0 < y then NInf else PInf)
            | NaN \<Rightarrow> Inr NaN))"
| "py_truediv a NaN = Inr NaN"
| "py_truediv (Fin x) PInf = Inr (Fin 0)"
| "py_truediv (Fin x) NInf = Inr (Fin 0)"
| "py_truediv a PInf = Inr NaN"
| "py_truediv a NInf = Inr NaN"

text \<open>
  \<^verbatim>\<open>math.log10\<close>: a domain error on arguments that are not positive, NaN on NaN,
  infinity on infinity.
\<close>

fun py_log10 :: "pyfloat \<Rightarrow> error + pyfloat" where
  "py_log10 (Fin x) = (if x \<le> 0 then Inl ValueError else Inr (Fin (log 10 x)))"
| "py_log10 PInf = Inr PInf"
| "py_log10 NInf = Inl ValueError"
| "py_log10 NaN = Inr NaN"

text \<open>\<^verbatim>\<open>str(i)\<close> and \<^verbatim>\<open>'%d' % i\<close> for an integer.\<close>

definition digit_char :: "nat \<Rightarrow> char" where
  "digit_char d = ''0123456789'' ! d"

fun str_nat :: "nat \<Rightarrow> string" where
  "str_nat n = (if n < 10 then [digit_char n] else str_nat (n div 10) @ [digit_char (n mod 10)])"

definition str_int :: "int \<Rightarrow> string" where
  "str_int i = (if i < 0 then CHR ''-'' # str_nat (nat (- i)) else str_nat (nat i))"

text \<open>\<^verbatim>\<open>range(a, b)\<close> over integers.\<close>

definition py_range :: "int \<Rightarrow> int \<Rightarrow> int list" where
  "py_range a b = [a..b - 1]"

subsection \<open>Tensors and parameters\<close>

text \<open>
  An image tensor is the list of its elements (its shape is abstracted to the element count).

  A gradient tensor is the list of its elements together with \<open>mean_item\<close>, the value of
  \<^verbatim>\<open>float(t.mean())\<close> as the library computes it: a float32 reduction whose rounding,
  overflow and order of summation are the library's, so that the value is given with the
  tensor and not derived from the elements. A parameter carries its gradient, which is
  \<^verbatim>\<open>None\<close> until a backward pass fills it.
\<close>

type_synonym tensor = "real list"

record gradient =
  elems :: "real list"
  mean_item :: pyfloat

record param =
  grad :: "gradient option"

text \<open>The numpy array operations used by the gradient check.\<close>

definition is_nan :: "pyfloat \<Rightarrow> bool" where
  "is_nan a = (case a of NaN \<Rightarrow> True | _ \<Rightarrow> False)"

fun fin_values :: "pyfloat list \<Rightarrow> real list" where
  "fin_values [] = []"
| "fin_values (Fin x # as) = x # fin_values as"
| "fin_values (_ # as) = fin_values as"

text \<open>\<^verbatim>\<open>a.any()\<close>: some element is truthy; zero is the only falsy float.\<close>

definition np_any :: "pyfloat list \<Rightarrow> bool" where
  "np_any as = list_ex (\<lambda>a. a \<noteq> Fin 0) as"

text \<open>
  \<^verbatim>\<open>a.mean()\<close>: NaN on the empty array (numpy only warns), when an element is NaN and
  when both infinities occur; an infinity when one occurs. On finite elements the quotient is
  taken without the float64 rounding of numpy. The rounding does not change the boolean that
  \<^verbatim>\<open>check_grads\<close> returns: a rounded sum of \<open>n\<close> values that are all at most 100 is
  at most \<open>100 * n\<close>, so the rounded mean exceeds 100 only if some element does, and then
  the second test of the check fails as well. Only which of the two warnings is printed can
  depend on it.
\<close>

definition np_mean :: "pyfloat list \<Rightarrow> pyfloat" where
  "np_mean as =
     (if as = [] \<or> list_ex is_nan as \<or> (PInf \<in> set as \<and> NInf \<in> set as) then NaN
      else if PInf \<in> set as then PInf
      else if NInf \<in> set as then NInf
      else Fin (sum_list (fin_values as) / real (length as)))"

text \<open>\<^verbatim>\<open>a.max()\<close>: raises on the empty array, propagates NaN.\<close>

fun fmax :: "pyfloat \<Rightarrow> pyfloat \<Rightarrow> pyfloat" where
  "fmax NaN _ = NaN"
| "fmax _ NaN = NaN"
| "fmax PInf _ = PInf"
| "fmax _ PInf = PInf"
| "fmax NInf b = b"
| "fmax a NInf = a"
| "fmax (Fin x) (Fin y) = Fin (max x y)"

definition np_max :: "pyfloat list \<Rightarrow> error + pyfloat" where
  "np_max as =
     (case as of
        [] \<Rightarrow> Inl ValueError
      | a # rest \<Rightarrow> Inr (fold fmax rest a))"

subsection \<open>check_grads\<close>

text \<open>The loop of lines 35-38: the mean of every gradient that is not \<^verbatim>\<open>None\<close>.\<close>

fun grad_means :: "param list \<Rightarrow> pyfloat list" where
  "grad_means [] = []"
| "grad_means (p # ps) =
     (case grad p of
        None \<Rightarrow> grad_means ps
      | Some g \<Rightarrow> mean_item g # grad_means ps)"

text \<open>
  The result is the printed lines and the returned boolean; \<^verbatim>\<open>and\<close> evaluates its
  right operand only when the left one holds, so \<^verbatim>\<open>grads.max()\<close> is reached only
  when \<^verbatim>\<open>grads.any()\<close> is true.
\<close>

definition check_grads :: "param list \<Rightarrow> string \<Rightarrow> error + (string list \<times> bool)" where
  "check_grads parameters model_name =
     (let grads = grad_means parameters in
      if np_any grads \<and> fgt (np_mean grads) 100 then
        Inr ([''WARNING!'' @ model_name @ '' gradients mean is over 100.''], False)
      else
        (case (if np_any grads
               then (case np_max grads of Inl e \<Rightarrow> Inl e | Inr m \<Rightarrow> Inr (fgt m 100))
               else Inr False) of
           Inl e \<Rightarrow> Inl e
         | Inr True \<Rightarrow> Inr ([''WARNING!'' @ model_name @ '' gradients max is over 100.''], False)
         | Inr False \<Rightarrow> Inr ([], True)))"

text \<open>
  Two readings of the specification that the source does not compute: the elements of every
  gradient tensor that is not \<^verbatim>\<open>None\<close> ("all non-null gradient values"), and the
  arithmetic mean of a tensor's elements in exact arithmetic.
\<close>

fun grad_values :: "param list \<Rightarrow> real list" where
  "grad_values [] = []"
| "grad_values (p # ps) =
     (case grad p of None \<Rightarrow> grad_values ps | Some g \<Rightarrow> elems g @ grad_values ps)"


subsection \<open>The state of a run\<close>

text \<open>
  What a run does to the outside world is recorded as a trace of events, in order: printed
  lines, progress-bar descriptions, gradient resets and optimizer steps, values sent to the
  metrics logger, and files saved and loaded.
\<close>

datatype event =
    Print string
  | ZeroGrad string
  | OptimizerStep string
  | PretrainBar int int pyfloat
  | TrainBar int int pyfloat pyfloat pyfloat pyfloat pyfloat
  | DevBar pyfloat pyfloat
  | LogValue string pyfloat int
  | TorchSave string
  | TorchLoad string
  | SaveImage string

text \<open>The dictionary \<^verbatim>\<open>cache\<close> of line 161, one field per key.\<close>

record cache =
  mse_loss :: pyfloat
  tv_loss :: pyfloat
  adv_loss :: pyfloat
  g_loss :: pyfloat
  d_loss :: pyfloat
  ssim :: pyfloat
  psnr :: pyfloat

definition new_cache :: cache where
  "new_cache = \<lparr>mse_loss = Fin 0, tv_loss = Fin 0, adv_loss = Fin 0, g_loss = Fin 0,
     d_loss = Fin 0, ssim = Fin 0, psnr = Fin 0\<rparr>"

text \<open>
  The program state: \<open>nets\<close> is the opaque state of both networks and both optimizers
  (weights, gradients, optimizer buffers, random generator), \<open>files\<close> the paths that exist
  on disk, and \<open>cache\<close> and \<open>dev_images\<close> the local variables of \<^verbatim>\<open>main\<close>.
\<close>

record 'm state =
  nets :: 'm
  files :: "string set"
  trace :: "event list"
  cache :: cache
  dev_images :: "tensor list"

text \<open>
  The tensor library and the modules \<^verbatim>\<open>model\<close>, \<^verbatim>\<open>preprocess\<close> and
  \<^verbatim>\<open>pytorch_ssim\<close> are not part of the script; they are parameters of the model.
  A training batch is the pair (data, target); a validation sample is the triple
  (val_lr, val_hr_restore, val_hr).
  \<^item> \<open>d_backward\<close> stands for lines 179-198 (forward passes, soft labels, the
    discriminator loss and its backward pass) and returns \<^verbatim>\<open>d_loss.item()\<close>;
  \<^item> \<open>g_backward\<close> stands for lines 206-220 and returns the items of the loss tensors
    \<^verbatim>\<open>image_loss\<close>, \<^verbatim>\<open>adversarial_loss\<close>, \<^verbatim>\<open>tv_loss\<close> and
    \<^verbatim>\<open>g_loss\<close>; the last one is the float32 tensor expression of line 213, which the
    library evaluates;
  \<^item> \<open>pretrain_backward\<close> stands for lines 120-128 without \<^verbatim>\<open>zero_grad\<close>.
\<close>

record 'm torch =
  cuda_is_available :: bool
  parametersD :: "'m \<Rightarrow> param list"
  parametersG :: "'m \<Rightarrow> param list"
  zero_gradD :: "'m \<Rightarrow> 'm"
  zero_gradG :: "'m \<Rightarrow> 'm"
  trainD :: "'m \<Rightarrow> 'm"
  trainG :: "'m \<Rightarrow> 'm"
  evalG :: "'m \<Rightarrow> 'm"
  adamD :: "'m \<Rightarrow> 'm"
  adamG :: "'m \<Rightarrow> 'm"
  stepD :: "'m \<Rightarrow> 'm"
  stepG :: "'m \<Rightarrow> 'm"
  pretrain_backward :: "tensor \<times> tensor \<Rightarrow> 'm \<Rightarrow> pyfloat \<times> 'm"
  d_backward :: "tensor \<times> tensor \<Rightarrow> 'm \<Rightarrow> pyfloat \<times> 'm"
  g_backward :: "tensor \<times> tensor \<Rightarrow> 'm \<Rightarrow> (pyfloat \<times> pyfloat \<times> pyfloat \<times> pyfloat) \<times> 'm"
  load_state_dict :: "string \<Rightarrow> string \<Rightarrow> 'm \<Rightarrow> 'm"
  generate :: "'m \<Rightarrow> tensor \<Rightarrow> tensor"
  pytorch_ssim :: "tensor \<Rightarrow> tensor \<Rightarrow> pyfloat"
  to_image :: "tensor \<Rightarrow> tensor"

text \<open>The command-line options that reach the training loops.\<close>

record opt =
  num_epochs :: int
  check_point :: int

text \<open>
  How a piece of \<^verbatim>\<open>main\<close> ends: it falls through to the next statement, it executes
  \<^verbatim>\<open>return\<close>, or it raises. The state at that moment is kept in every case, since
  files written and lines printed before an exception stay.
\<close>

datatype 's outcome = Continue 's | Return 's | Raise error 's

fun state_of :: "'s outcome \<Rightarrow> 's" where
  "state_of (Continue s) = s"
| "state_of (Return s) = s"
| "state_of (Raise e s) = s"

fun is_Continue :: "'s outcome \<Rightarrow> bool" where
  "is_Continue (Continue s) = True"
| "is_Continue _ = False"

fun is_Return :: "'s outcome \<Rightarrow> bool" where
  "is_Return (Return s) = True"
| "is_Return _ = False"

text \<open>Sequencing, and a \<^verbatim>\<open>for\<close> loop over a list.\<close>

fun then_do :: "'s outcome \<Rightarrow> ('s \<Rightarrow> 's outcome) \<Rightarrow> 's outcome" where
  "then_do (Continue s) f = f s"
| "then_do (Return s) f = Return s"
| "then_do (Raise e s) f = Raise e s"

fun for_each :: "('a \<Rightarrow> 's \<Rightarrow> 's outcome) \<Rightarrow> 'a list \<Rightarrow> 's \<Rightarrow> 's outcome" where
  "for_each body [] s = Continue s"
| "for_each body (x # xs) s = then_do (body x s) (for_each body xs)"

definition emit :: "event list \<Rightarrow> 'm state \<Rightarrow> 'm state" where
  "emit evs s = s\<lparr>trace := trace s @ evs\<rparr>"

definition torch_save :: "string \<Rightarrow> 'm state \<Rightarrow> 'm state" where
  "torch_save path s = emit [TorchSave path] (s\<lparr>files := insert path (files s)\<rparr>)"

text \<open>\<^verbatim>\<open>net.load_state_dict(torch.load(path))\<close>: a missing file raises.\<close>

definition torch_load :: "'m torch \<Rightarrow> string \<Rightarrow> string \<Rightarrow> 'm state \<Rightarrow> 'm state outcome" where
  "torch_load T component path s =
     (if path \<in> files s
      then Continue (emit [TorchLoad path] (s\<lparr>nets := load_state_dict T component path (nets s)\<rparr>))
      else Raise (FileNotFoundError path) s)"

subsection \<open>Pretraining (lines 100-138)\<close>

definition n_epoch_pretrain :: int where
  "n_epoch_pretrain = 5"

definition use_tensorboard :: bool where
  "use_tensorboard = True"

text \<open>
  One pretraining batch. The dictionary \<^verbatim>\<open>cache\<close> of line 110 is never read and is
  replaced at line 161, so it is left out.
\<close>

definition pretrain_batch :: "'m torch \<Rightarrow> int \<Rightarrow> tensor \<times> tensor \<Rightarrow> 'm state \<Rightarrow> 'm state outcome" where
  "pretrain_batch T epoch batch s =
     (let m1 = zero_gradG T (nets s);
          (image_loss, m2) = pretrain_backward T batch m1;
          m3 = stepG T m2
      in Continue (emit [ZeroGrad ''G'', OptimizerStep ''G'',
                         PretrainBar epoch n_epoch_pretrain image_loss]
                     (s\<lparr>nets := m3\<rparr>)))"

definition pretrain_epoch ::
  "'m torch \<Rightarrow> (tensor \<times> tensor) list \<Rightarrow> int \<Rightarrow> 'm state \<Rightarrow> 'm state outcome" where
  "pretrain_epoch T train_loader epoch s =
     then_do (for_each (pretrain_batch T epoch) train_loader (s\<lparr>nets := trainG T (nets s)\<rparr>))
       (\<lambda>s. if cuda_is_available T
            then Continue (torch_save ''cp/netG_epoch_pre_gpu.pth'' s)
            else Continue (torch_save ''cp/netG_epoch_pre_cpu.pth'' s))"

definition pretrain ::
  "'m torch \<Rightarrow> (tensor \<times> tensor) list \<Rightarrow> 'm state \<Rightarrow> 'm state outcome" where
  "pretrain T train_loader s =
     for_each (pretrain_epoch T train_loader) (py_range 1 (n_epoch_pretrain + 1))
       (s\<lparr>nets := adamG T (nets s)\<rparr>)"

subsection \<open>Loading a checkpoint (lines 143-153)\<close>

definition load_checkpoint :: "'m torch \<Rightarrow> int \<Rightarrow> 'm state \<Rightarrow> 'm state outcome" where
  "load_checkpoint T cp s =
     (if cuda_is_available T then
        then_do (torch_load T ''netG'' (''cp/netG_epoch_'' @ str_int cp @ ''_gpu.pth'') s) (\<lambda>s.
        then_do (torch_load T ''netD'' (''cp/netD_epoch_'' @ str_int cp @ ''_gpu.pth'') s) (\<lambda>s.
        then_do (torch_load T ''optimizerG'' (''cp/optimizerG_epoch_'' @ str_int cp @ ''_gpu.pth'') s) (\<lambda>s.
        torch_load T ''optimizerD'' (''cp/optimizerD_epoch_'' @ str_int cp @ ''_gpu.pth'') s)))
      else
        then_do (torch_load T ''netG'' (''cp/netG_epoch_'' @ str_int cp @ ''_cpu.pth'') s) (\<lambda>s.
        then_do (torch_load T ''netD'' (''cp/netD_epoch_'' @ str_int cp @ ''_cpu.pth'') s) (\<lambda>s.
        then_do (torch_load T ''optimizerG'' (''cp/optimizerG_epoch_'' @ str_int cp @ ''_cpu.pth'') s) (\<lambda>s.
        torch_load T ''optimizerD'' (''cp/optimizerD_epoch_'' @ str_int cp @ ''_cpu.pth'') s))))"

subsection \<open>One adversarial batch (lines 163-224)\<close>

text \<open>The gradient check as \<^verbatim>\<open>main\<close> uses it: print, then return when unhealthy.\<close>

definition guard_grads :: "param list \<Rightarrow> string \<Rightarrow> 'm state \<Rightarrow> 'm state outcome" where
  "guard_grads parameters model_name s =
     (case check_grads parameters model_name of
        Inl e \<Rightarrow> Raise e s
      | Inr (printed, healthy) \<Rightarrow>
          if \<not> healthy then Return (emit (map Print printed) s)
          else Continue (emit (map Print printed) s))"

definition train_D :: "'m torch \<Rightarrow> tensor \<times> tensor \<Rightarrow> 'm state \<Rightarrow> pyfloat \<times> 'm state" where
  "train_D T batch s =
     (let m1 = zero_gradD T (nets s);
          (d_loss_item, m2) = d_backward T batch m1;
          c = cache s;
          m3 = stepD T m2
      in (d_loss_item,
          emit [ZeroGrad ''D'', OptimizerStep ''D'']
            (s\<lparr>nets := m3, cache := c\<lparr>d_loss := fadd (d_loss c) d_loss_item\<rparr>\<rparr>)))"

definition train_G ::
  "'m torch \<Rightarrow> int \<Rightarrow> int \<Rightarrow> tensor \<times> tensor \<Rightarrow> pyfloat \<Rightarrow> 'm state \<Rightarrow> 'm state" where
  "train_G T epoch n_epoch batch d_loss_item s =
     (let m1 = zero_gradG T (nets s);
          ((image_loss, adversarial_loss, tv_loss_item, g_loss_item), m2) = g_backward T batch m1;
          c = cache s;
          m3 = stepG T m2
      in emit [ZeroGrad ''G'', OptimizerStep ''G'',
               TrainBar epoch n_epoch d_loss_item g_loss_item image_loss tv_loss_item
                 adversarial_loss]
           (s\<lparr>nets := m3,
              cache := c\<lparr>mse_loss := fadd (mse_loss c) image_loss,
                         tv_loss := fadd (tv_loss c) tv_loss_item,
                         adv_loss := fadd (adv_loss c) adversarial_loss,
                         g_loss := fadd (g_loss c) g_loss_item\<rparr>\<rparr>))"

definition train_batch ::
  "'m torch \<Rightarrow> int \<Rightarrow> int \<Rightarrow> tensor \<times> tensor \<Rightarrow> 'm state \<Rightarrow> 'm state outcome" where
  "train_batch T epoch n_epoch batch s =
     then_do (guard_grads (parametersD T (nets s)) ''D'' s) (\<lambda>s.
       let (d_loss_item, s1) = train_D T batch s in
       then_do (guard_grads (parametersG T (nets s1)) ''G'' s1) (\<lambda>s2.
         Continue (train_G T epoch n_epoch batch d_loss_item s2)))"

subsection \<open>End of an epoch: logging and checkpoints (lines 226-246)\<close>

definition log_value :: "string \<Rightarrow> pyfloat \<Rightarrow> nat \<Rightarrow> int \<Rightarrow> 'm state \<Rightarrow> 'm state outcome" where
  "log_value name acc n epoch s =
     (case py_truediv acc (Fin (real n)) of
        Inl e \<Rightarrow> Raise e s
      | Inr v \<Rightarrow> Continue (emit [LogValue name v epoch] s))"

definition log_losses :: "nat \<Rightarrow> int \<Rightarrow> 'm state \<Rightarrow> 'm state outcome" where
  "log_losses len_train_loader epoch s =
     (if use_tensorboard then
        then_do (log_value ''d_loss'' (d_loss (cache s)) len_train_loader epoch s) (\<lambda>s.
        then_do (log_value ''mse_loss'' (mse_loss (cache s)) len_train_loader epoch s) (\<lambda>s.
        then_do (log_value ''tv_loss'' (tv_loss (cache s)) len_train_loader epoch s) (\<lambda>s.
        then_do (log_value ''adv_loss'' (adv_loss (cache s)) len_train_loader epoch s) (\<lambda>s.
        log_value ''g_loss'' (g_loss (cache s)) len_train_loader epoch s))))
      else Continue s)"

definition save_model_parameters :: "'m torch \<Rightarrow> int \<Rightarrow> 'm state \<Rightarrow> 'm state" where
  "save_model_parameters T epoch s =
     (if cuda_is_available T then
        (let s = torch_save (''cp/netG_epoch_'' @ str_int epoch @ ''_gpu.pth'') s in
         if epoch mod 5 = 0 then
           torch_save (''cp/optimizerD_epoch_'' @ str_int epoch @ ''_gpu.pth'')
             (torch_save (''cp/optimizerG_epoch_'' @ str_int epoch @ ''_gpu.pth'')
               (torch_save (''cp/netD_epoch_'' @ str_int epoch @ ''_gpu.pth'') s))
         else s)
      else
        (let s = torch_save (''cp/netG_epoch_'' @ str_int epoch @ ''_cpu.pth'') s in
         if epoch mod 5 = 0 then
           torch_save (''cp/optimizerD_epoch_'' @ str_int epoch @ ''_cpu.pth'')
             (torch_save (''cp/optimizerG_epoch_'' @ str_int epoch @ ''_cpu.pth'')
               (torch_save (''cp/netD_epoch_'' @ str_int epoch @ ''_cpu.pth'') s))
         else s))"

subsection \<open>Validation and visualisation (lines 248-291)\<close>

text \<open>
  Line 268 on the generated image \<open>sr\<close> and the ground truth \<open>hr\<close>. The mean of the
  squared differences is taken in exact arithmetic, so that it is 0 exactly when the two
  images are equal; the float32 reduction of the library can also round the squares of very
  small differences to 0. The two tensors have the same shape in every run of the script
  (the generator upsamples by the factor of the data set); a mismatch of the element counts
  is modelled as the library's shape error, and broadcasting is not modelled. The mean of an
  empty tensor is NaN.
\<close>

definition mse_item :: "tensor \<Rightarrow> tensor \<Rightarrow> error + pyfloat" where
  "mse_item sr hr =
     (if length sr \<noteq> length hr then Inl RuntimeError
      else if sr = [] then Inr NaN
      else Inr (Fin (sum_list (map (\<lambda>(a, b). (a - b) ^ 2) (zip sr hr)) / real (length sr))))"

definition validation_psnr :: "tensor \<Rightarrow> tensor \<Rightarrow> error + pyfloat" where
  "validation_psnr sr hr =
     (case mse_item sr hr of
        Inl e \<Rightarrow> Inl e
      | Inr m \<Rightarrow>
          (case py_truediv (Fin 1) m of
             Inl e \<Rightarrow> Inl e
           | Inr q \<Rightarrow>
               (case py_log10 q of
                  Inl e \<Rightarrow> Inl e
                | Inr l \<Rightarrow> Inr (fscale 10 l))))"

definition dev_step ::
  "'m torch \<Rightarrow> tensor \<times> tensor \<times> tensor \<Rightarrow> 'm state \<Rightarrow> 'm state outcome" where
  "dev_step T sample s =
     (let (val_lr, val_hr_restore, val_hr) = sample;
          sr = generate T (nets s) val_lr;
          hr = val_hr
      in case validation_psnr sr hr of
           Inl e \<Rightarrow> Raise e s
         | Inr psnr_item \<Rightarrow>
             (let ssim_item = pytorch_ssim T sr hr;
                  c = cache s;
                  s = emit [DevBar psnr_item ssim_item]
                        (s\<lparr>cache := c\<lparr>ssim := fadd (ssim c) ssim_item,
                                       psnr := fadd (psnr c) psnr_item\<rparr>\<rparr>)
              in if length (dev_images s) < 60
                 then Continue (s\<lparr>dev_images := dev_images s @
                        [to_image T val_hr_restore, to_image T hr, to_image T sr]\<rparr>)
                 else Continue s))"

definition dev_loop ::
  "'m torch \<Rightarrow> (tensor \<times> tensor \<times> tensor) list \<Rightarrow> 'm state \<Rightarrow> 'm state outcome" where
  "dev_loop T dev_loader s =
     for_each (dev_step T) dev_loader (s\<lparr>nets := evalG T (nets s), dev_images := []\<rparr>)"

text \<open>
  \<^verbatim>\<open>torch.stack\<close> needs a non-empty list of equally sized tensors;
  \<^verbatim>\<open>torch.chunk(t, k)\<close> needs \<open>k > 0\<close> and cuts pieces of \<open>\<lceil>n / k\<rceil>\<close> elements.
\<close>

definition torch_stack :: "tensor list \<Rightarrow> error + tensor list" where
  "torch_stack ts =
     (if ts = [] \<or> list_ex (\<lambda>t. length t \<noteq> length (hd ts)) ts then Inl RuntimeError
      else Inr ts)"

definition torch_chunk :: "'a list \<Rightarrow> nat \<Rightarrow> error + 'a list list" where
  "torch_chunk xs k =
     (if k = 0 then Inl RuntimeError
      else (let m = (length xs + k - 1) div k
            in Inr (map (\<lambda>i. take m (drop (i * m) xs))
                      [0..<(length xs + m - 1) div m])))"

definition save_images :: "int \<Rightarrow> 'm state \<Rightarrow> 'm state outcome" where
  "save_images epoch s =
     (case torch_stack (dev_images s) of
        Inl e \<Rightarrow> Raise e s
      | Inr stacked \<Rightarrow>
          (case torch_chunk stacked (length stacked div 3) of
             Inl e \<Rightarrow> Raise e s
           | Inr chunks \<Rightarrow>
               (let paths = map (\<lambda>index. ''vis/'' @ ''epoch_'' @ str_int epoch @ ''_index_''
                                   @ str_int (int index) @ ''.png'')
                              [1..<Suc (length chunks)]
                in Continue (emit (map SaveImage paths)
                     (s\<lparr>files := files s \<union> set paths\<rparr>)))))"

definition log_validation :: "nat \<Rightarrow> int \<Rightarrow> 'm state \<Rightarrow> 'm state outcome" where
  "log_validation len_dev_loader epoch s =
     (if use_tensorboard then
        then_do (log_value ''ssim'' (ssim (cache s)) len_dev_loader epoch s) (\<lambda>s.
        log_value ''psnr'' (psnr (cache s)) len_dev_loader epoch s)
      else Continue s)"

definition visualize_results ::
  "'m torch \<Rightarrow> (tensor \<times> tensor \<times> tensor) list \<Rightarrow> int \<Rightarrow> 'm state \<Rightarrow> 'm state outcome" where
  "visualize_results T dev_loader epoch s =
     then_do (dev_loop T dev_loader s) (\<lambda>s.
     then_do (save_images epoch s) (\<lambda>s.
     log_validation (length dev_loader) epoch s))"

subsection \<open>The adversarial phase and the whole run (lines 140-291)\<close>

definition train_pass ::
  "'m torch \<Rightarrow> int \<Rightarrow> int \<Rightarrow> (tensor \<times> tensor) list \<Rightarrow> 'm state \<Rightarrow> 'm state outcome" where
  "train_pass T epoch n_epoch train_loader s =
     for_each (train_batch T epoch n_epoch) train_loader
       (s\<lparr>nets := trainD T (trainG T (nets s)), cache := new_cache\<rparr>)"

definition adversarial_epoch ::
  "'m torch \<Rightarrow> int \<Rightarrow> (tensor \<times> tensor) list \<Rightarrow> (tensor \<times> tensor \<times> tensor) list \<Rightarrow> int
     \<Rightarrow> 'm state \<Rightarrow> 'm state outcome" where
  "adversarial_epoch T n_epoch train_loader dev_loader epoch s =
     then_do (train_pass T epoch n_epoch train_loader s) (\<lambda>s.
     then_do (log_losses (length train_loader) epoch s) (\<lambda>s.
     visualize_results T dev_loader epoch (save_model_parameters T epoch s)))"

text \<open>The range of line 155.\<close>

definition epoch_range :: "int \<Rightarrow> int \<Rightarrow> int list" where
  "epoch_range cp n_epoch = py_range (1 + max cp 0) (n_epoch + 1 + max cp 0)"

text \<open>
  \<^verbatim>\<open>main\<close> from line 100 on. Lines 51-98 parse the options and build the data loaders
  and the networks; their results are the arguments and the initial state, and what they
  print precedes the trace. From line 100 on, the only lines printed are the warnings of
  \<^verbatim>\<open>check_grads\<close>.
\<close>

definition main ::
  "'m torch \<Rightarrow> opt \<Rightarrow> (tensor \<times> tensor) list \<Rightarrow> (tensor \<times> tensor \<times> tensor) list
     \<Rightarrow> 'm state \<Rightarrow> 'm state outcome" where
  "main T opt train_loader dev_loader s =
     (let n_epoch = num_epochs opt; cp = check_point opt in
      then_do (if cp = - 1 then pretrain T train_loader s else Continue s) (\<lambda>s.
      then_do (Continue (s\<lparr>nets := adamD T (adamG T (nets s))\<rparr>)) (\<lambda>s.
      then_do (if cp \<noteq> - 1 then load_checkpoint T cp s else Continue s) (\<lambda>s.
      for_each (adversarial_epoch T n_epoch train_loader dev_loader) (epoch_range cp n_epoch) s))))"

subsection \<open>Observations on a trace\<close>

text \<open>The paths given to \<^verbatim>\<open>torch.save\<close>, the printed lines, the logged values.\<close>

fun saved_paths :: "event list \<Rightarrow> string list" where
  "saved_paths [] = []"
| "saved_paths (TorchSave p # es) = p # saved_paths es"
| "saved_paths (_ # es) = saved_paths es"

fun printed :: "event list \<Rightarrow> string list" where
  "printed [] = []"
| "printed (Print l # es) = l # printed es"
| "printed (_ # es) = printed es"

fun logged :: "event list \<Rightarrow> (string \<times> pyfloat \<times> int) list" where
  "logged [] = []"
| "logged (LogValue name v epoch # es) = (name, v, epoch) # logged es"
| "logged (_ # es) = logged es"

text \<open>
  The five training metrics of an epoch. \<open>recorded m evs\<close> lists the per-batch values of
  metric \<open>m\<close> as the progress bar of line 224 receives them, one per batch, in order.
\<close>

datatype metric = D_loss | Mse_loss | Tv_loss | Adv_loss | G_loss

fun metric_name :: "metric \<Rightarrow> string" where
  "metric_name D_loss = ''d_loss''"
| "metric_name Mse_loss = ''mse_loss''"
| "metric_name Tv_loss = ''tv_loss''"
| "metric_name Adv_loss = ''adv_loss''"
| "metric_name G_loss = ''g_loss''"

fun cache_of :: "metric \<Rightarrow> cache \<Rightarrow> pyfloat" where
  "cache_of D_loss c = d_loss c"
| "cache_of Mse_loss c = mse_loss c"
| "cache_of Tv_loss c = tv_loss c"
| "cache_of Adv_loss c = adv_loss c"
| "cache_of G_loss c = g_loss c"

fun bar_loss :: "metric \<Rightarrow> event \<Rightarrow> pyfloat list" where
  "bar_loss m (TrainBar epoch n d g i t a) =
     [case m of D_loss \<Rightarrow> d | Mse_loss \<Rightarrow> i | Tv_loss \<Rightarrow> t | Adv_loss \<Rightarrow> a | G_loss \<Rightarrow> g]"
| "bar_loss m _ = []"

definition recorded :: "metric \<Rightarrow> event list \<Rightarrow> pyfloat list" where
  "recorded m evs = concat (map (bar_loss m) evs)"

text \<open>The sum of a list of floats, accumulated from \<open>Fin 0\<close> in list order.\<close>

definition fsum :: "pyfloat list \<Rightarrow> pyfloat" where
  "fsum xs = foldl fadd (Fin 0) xs"

text \<open>
  The checkpoint schedule in the specification's words: the generator file for every epoch,
  the discriminator and the two optimizer files for the epochs divisible by 5.
\<close>

definition device_tag :: "'m torch \<Rightarrow> string" where
  "device_tag T = (if cuda_is_available T then ''gpu'' else ''cpu'')"

definition checkpoint_path :: "'m torch \<Rightarrow> string \<Rightarrow> int \<Rightarrow> string" where
  "checkpoint_path T component epoch =
     ''cp/'' @ component @ ''_epoch_'' @ str_int epoch @ ''_'' @ device_tag T @ ''.pth''"

definition epoch_checkpoints :: "'m torch \<Rightarrow> int \<Rightarrow> string list" where
  "epoch_checkpoints T epoch =
     checkpoint_path T ''netG'' epoch #
     (if epoch mod 5 = 0
      then [checkpoint_path T ''netD'' epoch, checkpoint_path T ''optimizerG'' epoch,
            checkpoint_path T ''optimizerD'' epoch]
      else [])"

definition pretrain_checkpoint :: "'m torch \<Rightarrow> string" where
  "pretrain_checkpoint T = ''cp/netG_epoch_pre_'' @ device_tag T @ ''.pth''"

text \<open>
  Two ways a piece of the run can treat the trace. It is \<open>quiet\<close> when it neither returns
  from \<^verbatim>\<open>main\<close> nor prints. It is \<open>guarded\<close> when a printed line can only be the
  last event, and then the piece has returned from \<^verbatim>\<open>main\<close>; a piece that has not
  returned has printed nothing.
\<close>

definition quiet :: "'m state \<Rightarrow> 'm state outcome \<Rightarrow> bool" where
  "quiet s r \<longleftrightarrow>
     \<not> is_Return r \<and> (\<exists>evs. trace (state_of r) = trace s @ evs \<and> printed evs = [])"

definition guarded :: "'m state \<Rightarrow> 'm state outcome \<Rightarrow> bool" where
  "guarded s r \<longleftrightarrow>
     (\<exists>evs. trace (state_of r) = trace s @ evs \<and>
        (if is_Return r
         then evs \<noteq> [] \<and> (\<exists>l. last evs = Print l) \<and> printed (butlast evs) = []
         else printed evs = []))"

text \<open>\<^verbatim>\<open>main\<close> up to the epoch loop (lines 100-153).\<close>

definition main_prologue ::
  "'m torch \<Rightarrow> int \<Rightarrow> (tensor \<times> tensor) list \<Rightarrow> 'm state \<Rightarrow> 'm state outcome" where
  "main_prologue T cp train_loader s =
      then_do (if cp = - 1 then pretrain T train_loader s else Continue s) (\<lambda>s.
      then_do (Continue (s\<lparr>nets := adamD T (adamG T (nets s))\<rparr>)) (\<lambda>s.
      (if cp \<noteq> - 1 then load_checkpoint T cp s else Continue s)))"

text \<open>
  The epoch average in the specification's words, \<open>(\<Sum> L\<^sub>i) / N\<close> with \<open>N\<close> the number of
  recorded values; a sum that is infinite or NaN stays so.
\<close>

definition average :: "pyfloat list \<Rightarrow> pyfloat" where
  "average xs = (case fsum xs of Fin t \<Rightarrow> Fin (t / real (length xs)) | v \<Rightarrow> v)"

text \<open>
  The values logged for the five training metrics: the entries of \<open>logged\<close> whose name is
  one of theirs (the validation metrics \<^verbatim>\<open>ssim\<close> and \<^verbatim>\<open>psnr\<close> are left out).
\<close>

definition metric_names :: "string list" where
  "metric_names = map metric_name [D_loss, Mse_loss, Tv_loss, Adv_loss, G_loss]"

definition metric_logs :: "event list \<Rightarrow> (string \<times> pyfloat \<times> int) list" where
  "metric_logs evs = filter (\<lambda>l. fst l \<in> set metric_names) (logged evs)"

text \<open>
  The steps of the three phases as the trace shows them: a pretraining batch of an epoch,
  a checkpoint file loaded, an adversarial batch of an epoch. \<open>bar_epochs\<close> keeps the epoch
  numbers of the adversarial batches.
\<close>

datatype mark = Pretrained int | Loaded string | Trained int

fun marks :: "event list \<Rightarrow> mark list" where
  "marks [] = []"
| "marks (PretrainBar epoch n l # es) = Pretrained epoch # marks es"
| "marks (TorchLoad p # es) = Loaded p # marks es"
| "marks (TrainBar epoch n d g i t a # es) = Trained epoch # marks es"
| "marks (_ # es) = marks es"

fun bar_epochs :: "event list \<Rightarrow> int list" where
  "bar_epochs [] = []"
| "bar_epochs (TrainBar epoch n d g i t a # es) = epoch # bar_epochs es"
| "bar_epochs (_ # es) = bar_epochs es"

text \<open>
  What a run is expected to show: every batch of the loader in each of the five pretraining
  epochs, the four checkpoint files of a resumed run in the order of lines 145-148, and
  every batch of the loader in each adversarial epoch.
\<close>

definition pretrain_marks :: "nat \<Rightarrow> mark list" where
  "pretrain_marks len_train_loader =
     concat (map (\<lambda>epoch. replicate len_train_loader (Pretrained epoch)) [1, 2, 3, 4, 5])"

definition epoch_marks :: "nat \<Rightarrow> int list \<Rightarrow> mark list" where
  "epoch_marks len_train_loader epochs =
     concat (map (\<lambda>epoch. replicate len_train_loader (Trained epoch)) epochs)"

definition load_components :: "string list" where
  "load_components = [''netG'', ''netD'', ''optimizerG'', ''optimizerD'']"

definition load_paths :: "'m torch \<Rightarrow> int \<Rightarrow> string list" where
  "load_paths T cp = map (\<lambda>component. checkpoint_path T component cp) load_components"

text \<open>
  Classes of events, and the statement that a piece of the run extends the trace by events
  that satisfy a given property.
\<close>

fun train_event :: "event \<Rightarrow> bool" where
  "train_event (Print l) = True"
| "train_event (ZeroGrad m) = True"
| "train_event (OptimizerStep m) = True"
| "train_event (TrainBar epoch n d g i t a) = True"
| "train_event _ = False"

fun epoch_end_event :: "event \<Rightarrow> bool" where
  "epoch_end_event (TorchSave p) = True"
| "epoch_end_event (DevBar p s) = True"
| "epoch_end_event (SaveImage p) = True"
| "epoch_end_event (LogValue name v epoch) = (name = ''ssim'' \<or> name = ''psnr'')"
| "epoch_end_event _ = False"

definition adds :: "(event list \<Rightarrow> bool) \<Rightarrow> 'm state \<Rightarrow> 'm state outcome \<Rightarrow> bool" where
  "adds P s r \<longleftrightarrow> (\<exists>evs. trace (state_of r) = trace s @ evs \<and> P evs)"

subsection \<open>A concrete instance\<close>

text \<open>
  A small environment on which the model can be run. The opaque state is the number of
  discriminator backward passes so far; the discriminator's single gradient has one element,
  which grows with that number (30 per pass), so the fifth discriminator check of a run
  fails. The generator of \<open>example_torch\<close> never has a gradient; the one of
  \<open>example_torch_G\<close> has a large one. The loss items of a generator step are 1, 2 and 3
  (image, adversarial, total variation), and the item of \<^verbatim>\<open>g_loss\<close> is the float32
  value of \<open>1 + 1e-3 * 2 + 2e-8 * 3\<close>, which is \<open>1 + 8389 / 4194304\<close>.
\<close>

definition example_torch :: "nat torch" where
  "example_torch = \<lparr>cuda_is_available = False,
     parametersD = (\<lambda>m. [\<lparr>grad = (if m = 0 then None
       else Some \<lparr>elems = [30 * real m], mean_item = Fin (30 * real m)\<rparr>)\<rparr>]),
     parametersG = (\<lambda>m. [\<lparr>grad = None\<rparr>]),
     zero_gradD = (\<lambda>m. m), zero_gradG = (\<lambda>m. m),
     trainD = (\<lambda>m. m), trainG = (\<lambda>m. m), evalG = (\<lambda>m. m),
     adamD = (\<lambda>m. m), adamG = (\<lambda>m. m), stepD = (\<lambda>m. m), stepG = (\<lambda>m. m),
     pretrain_backward = (\<lambda>b m. (Fin 1, m)),
     d_backward = (\<lambda>b m. (Fin (1 + real m), Suc m)),
     g_backward = (\<lambda>b m. ((Fin 1, Fin 2, Fin 3, Fin (1 + 8389 / 4194304)), m)),
     load_state_dict = (\<lambda>c p m. m),
     generate = (\<lambda>m lr. map (\<lambda>x. x + 1 / 2) lr),
     pytorch_ssim = (\<lambda>a b. Fin (1 / 2)),
     to_image = (\<lambda>t. t)\<rparr>"

definition example_torch_G :: "nat torch" where
  "example_torch_G = example_torch\<lparr>parametersG :=
     (\<lambda>m. [\<lparr>grad = Some \<lparr>elems = [150 * real m], mean_item = Fin (150 * real m)\<rparr>\<rparr>])\<rparr>"

definition example_state :: "nat state" where
  "example_state = \<lparr>nets = 0, files = {}, trace = [], cache = new_cache, dev_images = []\<rparr>"

definition example_batch :: "tensor \<times> tensor" where
  "example_batch = ([0], [0])"

definition example_sample :: "tensor \<times> tensor \<times> tensor" where
  "example_sample = ([0], [0], [0])"

section \<open>Properties of check_grads\<close>

lemma grad_means_no_grad: "\<forall>p\<in>set ps. grad p = None \<Longrightarrow> grad_means ps = []"
  by (induction ps) auto

lemma check_grads_no_means: "grad_means ps = [] \<Longrightarrow> check_grads ps name = Inr ([], True)"
  by (simp add: check_grads_def np_any_def)

lemma grad_means_set:
  "g \<in> set (grad_means ps) \<Longrightarrow> \<exists>p\<in>set ps. \<exists>t. grad p = Some t \<and> g = mean_item t"
  by (induction ps) (auto split: option.splits)

lemma fle_not_fgt: "fle a t \<Longrightarrow> \<not> fgt a t"
  by (cases a) auto

lemma not_fgt_fle: "\<not> fgt a t \<Longrightarrow> \<not> is_nan a \<Longrightarrow> fle a t"
  by (cases a) (auto simp: is_nan_def)

lemma fle_fmax: "fle a t \<Longrightarrow> fle b t \<Longrightarrow> fle (fmax a b) t"
  by (cases a; cases b) auto

lemma fold_fmax_fle: "fle a t \<Longrightarrow> \<forall>x\<in>set xs. fle x t \<Longrightarrow> fle (fold fmax xs a) t"
  by (induction xs arbitrary: a) (auto intro: fle_fmax)

lemma fmax_NaN_right [simp]: "fmax a NaN = NaN"
  by (cases a) auto

lemma fold_fmax_NaN [simp]: "fold fmax xs NaN = NaN"
  by (induction xs) auto

lemma fold_fmax_has_nan: "list_ex is_nan xs \<Longrightarrow> fold fmax xs a = NaN"
proof (induction xs arbitrary: a)
  case Nil then show ?case by simp
next
  case (Cons x xs)
  show ?case
  proof (cases x)
    case NaN then show ?thesis by simp
  next
    case (Fin r) with Cons show ?thesis by (simp add: is_nan_def)
  next
    case PInf with Cons show ?thesis by (simp add: is_nan_def)
  next
    case NInf with Cons show ?thesis by (simp add: is_nan_def)
  qed
qed

lemma np_max_has_nan:
  "list_ex is_nan as \<Longrightarrow> np_max as = Inr NaN"
proof (cases as)
  case Nil
  assume "list_ex is_nan as"
  then show ?thesis using Nil by simp
next
  case (Cons a rest)
  assume n: "list_ex is_nan as"
  show ?thesis
  proof (cases "is_nan a")
    case True
    then have "a = NaN" by (cases a) (auto simp: is_nan_def)
    then show ?thesis using Cons by (simp add: np_max_def)
  next
    case False
    with n Cons have "list_ex is_nan rest" by simp
    then show ?thesis using Cons by (simp add: np_max_def fold_fmax_has_nan)
  qed
qed

lemma fgt_fmax: "\<not> is_nan a \<Longrightarrow> \<not> is_nan b \<Longrightarrow>
  \<not> is_nan (fmax a b) \<and> (fgt (fmax a b) t \<longleftrightarrow> fgt a t \<or> fgt b t)"
  by (cases a; cases b) (auto simp: is_nan_def)

lemma fold_fmax_fgt:
  "\<not> is_nan a \<Longrightarrow> \<not> list_ex is_nan xs \<Longrightarrow>
   fgt (fold fmax xs a) t \<longleftrightarrow> fgt a t \<or> (\<exists>x\<in>set xs. fgt x t)"
proof (induction xs arbitrary: a)
  case Nil then show ?case by simp
next
  case (Cons x xs)
  from Cons.prems have nx: "\<not> is_nan x" and nxs: "\<not> list_ex is_nan xs" by auto
  from fgt_fmax[OF nx Cons.prems(1), of t]
  have m: "\<not> is_nan (fmax x a)" "fgt (fmax x a) t \<longleftrightarrow> fgt x t \<or> fgt a t" by auto
  show ?case using Cons.IH[OF m(1) nxs] m(2) by auto
qed

lemma sum_list_le_const:
  fixes xs :: "real list"
  shows "\<forall>x\<in>set xs. x \<le> c \<Longrightarrow> sum_list xs \<le> c * real (length xs)"
  by (induction xs) (auto simp: algebra_simps)

lemma mean_le:
  fixes ms :: "real list"
  assumes "ms \<noteq> []" "\<forall>m\<in>set ms. m \<le> c"
  shows "sum_list ms / real (length ms) \<le> c"
proof -
  have "sum_list ms \<le> c * real (length ms)" using assms(2) by (rule sum_list_le_const)
  moreover have "0 < real (length ms)" using assms(1) by simp
  ultimately show ?thesis by (simp add: pos_divide_le_eq)
qed

lemma fle_finite: "fle a t \<Longrightarrow> a \<noteq> NInf \<Longrightarrow> \<exists>x. a = Fin x"
  by (cases a) auto

lemma all_Fin_values:
  "\<forall>a\<in>set as. \<exists>x. a = Fin x \<Longrightarrow> as = map Fin (fin_values as)"
  by (induction as rule: fin_values.induct) auto

lemma np_mean_fle:
  assumes "\<forall>a\<in>set as. fle a t"
  shows "\<not> fgt (np_mean as) t"
proof (cases "as = [] \<or> list_ex is_nan as \<or> (PInf \<in> set as \<and> NInf \<in> set as)")
  case True
  then show ?thesis by (simp add: np_mean_def)
next
  case False
  have np: "PInf \<notin> set as" using assms by force
  show ?thesis
  proof (cases "NInf \<in> set as")
    case True
    then show ?thesis using False np by (simp add: np_mean_def)
  next
    case ni: False
    have fin: "\<forall>a\<in>set as. \<exists>x. a = Fin x"
    proof
      fix a assume mem: "a \<in> set as"
      with assms have "fle a t" by blast
      moreover have "a \<noteq> NInf" using mem ni by auto
      ultimately show "\<exists>x. a = Fin x" by (rule fle_finite)
    qed
    then have eq: "as = map Fin (fin_values as)" by (rule all_Fin_values)
    have le: "\<forall>m\<in>set (fin_values as). m \<le> t"
    proof
      fix m assume "m \<in> set (fin_values as)"
      then have "Fin m \<in> set as" by (subst eq) simp
      with assms have "fle (Fin m) t" by blast
      then show "m \<le> t" by simp
    qed
    have ne: "fin_values as \<noteq> []" using False eq by auto
    have len: "length as = length (fin_values as)" by (subst eq) simp
    have "sum_list (fin_values as) / real (length as) \<le> t"
      unfolding len by (rule mean_le[OF ne le])
    then show ?thesis using False np ni by (simp add: np_mean_def not_less)
  qed
qed

lemma check_grads_none_exceeds:
  assumes "\<forall>g\<in>set (grad_means ps). \<not> fgt g 100"
  shows "check_grads ps name = Inr ([], True)"
proof (cases "list_ex is_nan (grad_means ps)")
  case True
  then have "grad_means ps \<noteq> []" by auto
  then have "np_mean (grad_means ps) = NaN" using True by (simp add: np_mean_def)
  then show ?thesis using np_max_has_nan[OF True]
    by (cases "np_any (grad_means ps)") (simp_all add: check_grads_def Let_def)
next
  case False
  have f: "\<forall>g\<in>set (grad_means ps). fle g 100"
  proof
    fix g assume g: "g \<in> set (grad_means ps)"
    then have "\<not> is_nan g" using False by (auto simp: list_ex_iff)
    with assms g show "fle g 100" by (intro not_fgt_fle) auto
  qed
  have m: "\<not> fgt (np_mean (grad_means ps)) 100" using f by (rule np_mean_fle)
  show ?thesis
  proof (cases "grad_means ps")
    case Nil
    then show ?thesis by (simp add: check_grads_no_means)
  next
    case (Cons a rest)
    have "fle (fold fmax rest a) 100" using f Cons by (intro fold_fmax_fle) auto
    then have "\<not> fgt (fold fmax rest a) 100" by (rule fle_not_fgt)
    then show ?thesis using m Cons
      by (cases "np_any (grad_means ps)") (simp_all add: check_grads_def np_max_def Let_def)
  qed
qed

lemma np_mean_fgt_any: "fgt (np_mean as) 100 \<Longrightarrow> np_any as"
proof (rule ccontr)
  assume g: "fgt (np_mean as) 100" and n: "\<not> np_any as"
  from n have z: "\<forall>a\<in>set as. a = Fin 0" by (auto simp: np_any_def list_ex_iff)
  then have "\<forall>a\<in>set as. fle a 100" by auto
  then have "\<not> fgt (np_mean as) 100" by (rule np_mean_fle)
  with g show False by blast
qed

lemma check_grads_exceeds:
  assumes "\<not> list_ex is_nan (grad_means ps)"
    and "fgt (np_mean (grad_means ps)) 100 \<or> list_ex (\<lambda>g. fgt g 100) (grad_means ps)"
  shows "\<exists>l. check_grads ps name = Inr ([l], False)"
proof (cases "fgt (np_mean (grad_means ps)) 100")
  case True
  then show ?thesis using np_mean_fgt_any[OF True] by (simp add: check_grads_def Let_def)
next
  case False
  with assms(2) obtain g where g: "g \<in> set (grad_means ps)" "fgt g 100"
    by (auto simp: list_ex_iff)
  then have "g \<noteq> Fin 0" by auto
  with g(1) have any: "np_any (grad_means ps)" by (auto simp: np_any_def list_ex_iff)
  obtain a rest where c: "grad_means ps = a # rest" using g(1) by (cases "grad_means ps") auto
  have "fgt (fold fmax rest a) 100"
    using fold_fmax_fgt[of a rest 100] assms(1) g c by auto
  then show ?thesis using False any c by (simp add: check_grads_def np_max_def Let_def)
qed

text \<open>
  Claim C8. A model none of whose parameters has a gradient (every \<^verbatim>\<open>grad\<close> is
  \<^verbatim>\<open>None\<close>) passes the check: no exception is raised, nothing is printed and the
  result is \<^verbatim>\<open>True\<close>. The guard \<^verbatim>\<open>grads.any()\<close> keeps
  \<^verbatim>\<open>grads.max()\<close> from being called on the empty array.
\<close>

theorem check_grads_no_gradients:
  "\<forall>p\<in>set ps. grad p = None \<Longrightarrow> check_grads ps name = Inr ([], True)"
  by (simp add: grad_means_no_grad check_grads_no_means)

theorem check_grads_no_gradients_witness:
  "list_all (\<lambda>p. grad p = None) [\<lparr>grad = None\<rparr>, \<lparr>grad = None\<rparr>]
   \<and> check_grads [\<lparr>grad = None\<rparr>, \<lparr>grad = None\<rparr>] ''D'' = Inr ([], True)"
  using check_grads_no_gradients[of "[\<lparr>grad = None\<rparr>, \<lparr>grad = None\<rparr>]" "''D''"] by simp





text \<open>
  Claim C1 as stated fails: a gradient set whose largest gradient value is 150 is reported
  healthy, because only the per-parameter mean (here 75) is compared with the threshold.
\<close>

theorem check_grads_element_max_counterexample:
  "100 < Max (set (grad_values [\<lparr>grad = Some \<lparr>elems = [150, 0], mean_item = Fin 75\<rparr>\<rparr>]))
   \<and> check_grads [\<lparr>grad = Some \<lparr>elems = [150, 0], mean_item = Fin 75\<rparr>\<rparr>] ''D'' = Inr ([], True)"
  by (simp add: check_grads_def np_any_def np_mean_def np_max_def is_nan_def)

text \<open>
  Claim C1, amended. The threshold applies to the per-parameter means that the library
  computes. When every gradient tensor has a computed mean of at most 100 (and elements of
  at most 100), the check reports healthy. When no computed mean is NaN and the average of
  the computed means or the largest of them exceeds 100, the check prints one warning and
  returns \<^verbatim>\<open>False\<close>.
\<close>

theorem check_grads_threshold:
  "((\<forall>p\<in>set ps. \<forall>g. grad p = Some g \<longrightarrow> fle (mean_item g) 100 \<and> (\<forall>x\<in>set (elems g). x \<le> 100))
      \<longrightarrow> check_grads ps name = Inr ([], True))
   \<and> (\<not> list_ex is_nan (grad_means ps)
        \<and> (fgt (np_mean (grad_means ps)) 100 \<or> list_ex (\<lambda>g. fgt g 100) (grad_means ps))
      \<longrightarrow> (\<exists>l. check_grads ps name = Inr ([l], False)))"
proof (intro conjI impI)
  assume a: "\<forall>p\<in>set ps. \<forall>g. grad p = Some g
               \<longrightarrow> fle (mean_item g) 100 \<and> (\<forall>x\<in>set (elems g). x \<le> 100)"
  have "\<forall>g\<in>set (grad_means ps). \<not> fgt g 100"
  proof
    fix g assume "g \<in> set (grad_means ps)"
    then obtain p t where "p \<in> set ps" "grad p = Some t" "g = mean_item t"
      using grad_means_set by blast
    with a have "fle g 100" by blast
    then show "\<not> fgt g 100" by (rule fle_not_fgt)
  qed
  then show "check_grads ps name = Inr ([], True)" by (rule check_grads_none_exceeds)
next
  assume "\<not> list_ex is_nan (grad_means ps)
        \<and> (fgt (np_mean (grad_means ps)) 100 \<or> list_ex (\<lambda>g. fgt g 100) (grad_means ps))"
  then show "\<exists>l. check_grads ps name = Inr ([l], False)"
    by (intro check_grads_exceeds) blast+
qed

theorem check_grads_threshold_witness:
  "list_all (\<lambda>p. case grad p of None \<Rightarrow> True
        | Some g \<Rightarrow> fle (mean_item g) 100 \<and> list_all (\<lambda>x. x \<le> 100) (elems g))
      [\<lparr>grad = Some \<lparr>elems = [100, 50], mean_item = Fin 75\<rparr>\<rparr>, \<lparr>grad = None\<rparr>]
   \<and> check_grads [\<lparr>grad = Some \<lparr>elems = [100, 50], mean_item = Fin 75\<rparr>\<rparr>, \<lparr>grad = None\<rparr>] ''D''
       = Inr ([], True)
   \<and> grad_means [\<lparr>grad = Some \<lparr>elems = [300, 100], mean_item = Fin 200\<rparr>\<rparr>,
                  \<lparr>grad = Some \<lparr>elems = [- 400], mean_item = Fin (- 400)\<rparr>\<rparr>]
       = [Fin 200, Fin (- 400)]
   \<and> list_ex (\<lambda>g. fgt g 100) [Fin 200, Fin (- 400)]
   \<and> check_grads [\<lparr>grad = Some \<lparr>elems = [300, 100], mean_item = Fin 200\<rparr>\<rparr>,
                   \<lparr>grad = Some \<lparr>elems = [- 400], mean_item = Fin (- 400)\<rparr>\<rparr>] ''D''
       = Inr ([''WARNING!D gradients max is over 100.''], False)"
proof -
  let ?ps = "[\<lparr>grad = Some \<lparr>elems = [100, 50], mean_item = Fin 75\<rparr>\<rparr>, \<lparr>grad = None\<rparr>]"
  let ?qs = "[\<lparr>grad = Some \<lparr>elems = [300, 100], mean_item = Fin 200\<rparr>\<rparr>,
              \<lparr>grad = Some \<lparr>elems = [- 400], mean_item = Fin (- 400)\<rparr>\<rparr>]"
  have h1: "\<forall>p\<in>set ?ps. \<forall>g. grad p = Some g
        \<longrightarrow> fle (mean_item g) 100 \<and> (\<forall>x\<in>set (elems g). x \<le> 100)"
    by simp
  have h2: "grad_means ?qs = [Fin 200, Fin (- 400)]" by simp
  have h3: "list_ex (\<lambda>g. fgt g 100) [Fin 200, Fin (- 400)]" by simp
  have h4: "\<not> list_ex is_nan (grad_means ?qs)" by (simp add: is_nan_def)
  have c1: "check_grads ?ps ''D'' = Inr ([], True)"
    using check_grads_threshold[where ps = ?ps and name = "''D''"] h1 by blast
  have "\<exists>l. check_grads ?qs ''D'' = Inr ([l], False)"
    using check_grads_threshold[where ps = ?qs and name = "''D''"] h2 h3 h4 by simp
  then obtain l where l: "check_grads ?qs ''D'' = Inr ([l], False)" by blast
  have "check_grads ?qs ''D'' = Inr ([''WARNING!D gradients max is over 100.''], False)"
    by (simp add: check_grads_def np_any_def np_mean_def np_max_def is_nan_def)
  with l have c2: "check_grads ?qs ''D'' = Inr ([''WARNING!D gradients max is over 100.''], False)"
    by simp
  have h1': "list_all (\<lambda>p. case grad p of None \<Rightarrow> True
        | Some g \<Rightarrow> fle (mean_item g) 100 \<and> list_all (\<lambda>x. x \<le> 100) (elems g)) ?ps"
    by simp
  from h1' c1 h2 h3 c2 show ?thesis by blast
qed

section \<open>Sequencing and loops\<close>

lemma saved_paths_append [simp]: "saved_paths (xs @ ys) = saved_paths xs @ saved_paths ys"
  by (induction xs rule: saved_paths.induct) auto

lemma state_of_then_do_cases:
  "then_do r g = (case r of Continue s \<Rightarrow> g s | _ \<Rightarrow> r)"
  by (cases r) auto

lemma then_do_keeps:
  assumes "proj (state_of r) = p" and "\<And>s1. proj (state_of (g s1)) = proj s1"
  shows "proj (state_of (then_do r g)) = p"
  using assms by (cases r) auto

lemma for_each_keeps:
  assumes "\<And>x s. proj (state_of (body x s)) = proj s"
  shows "proj (state_of (for_each body xs s)) = proj s"
proof (induction xs arbitrary: s)
  case Nil then show ?case by simp
next
  case (Cons x xs)
  have "proj (state_of (then_do (body x s) (for_each body xs))) = proj s"
    by (rule then_do_keeps) (simp_all add: assms Cons)
  then show ?case by simp
qed

section \<open>Checkpoint files written by a run\<close>

lemma sp_emit [simp]:
  "saved_paths (trace (emit evs s)) = saved_paths (trace s) @ saved_paths evs"
  by (simp add: emit_def)

lemma sp_map_Print [simp]: "saved_paths (map Print ls) = []"
  by (induction ls) auto

lemma sp_map_SaveImage [simp]: "saved_paths (map SaveImage ls) = []"
  by (induction ls) auto

lemma sp_map_SaveImage_comp [simp]: "saved_paths (map (SaveImage \<circ> f) ls) = []"
  by (induction ls) auto

lemma sp_torch_save [simp]:
  "saved_paths (trace (torch_save p s)) = saved_paths (trace s) @ [p]"
  by (simp add: torch_save_def)

lemma sp_torch_load [simp]:
  "saved_paths (trace (state_of (torch_load T c p s))) = saved_paths (trace s)"
  by (simp add: torch_load_def)

lemma sp_load_checkpoint:
  "saved_paths (trace (state_of (load_checkpoint T cp s))) = saved_paths (trace s)"
  unfolding load_checkpoint_def
  by (simp add: then_do_keeps[where proj = "\<lambda>s. saved_paths (trace s)"])

lemma sp_guard_grads [simp]:
  "saved_paths (trace (state_of (guard_grads ps name s))) = saved_paths (trace s)"
  by (simp add: guard_grads_def split: sum.splits prod.splits)

lemma sp_train_D [simp]:
  "saved_paths (trace (snd (train_D T b s))) = saved_paths (trace s)"
  by (simp add: train_D_def Let_def split: prod.splits)

lemma sp_train_G [simp]:
  "saved_paths (trace (train_G T e n b d s)) = saved_paths (trace s)"
  by (simp add: train_G_def Let_def split: prod.splits)

lemma sp_train_D_pair:
  "train_D T b s = (d, s1) \<Longrightarrow> saved_paths (trace s1) = saved_paths (trace s)"
  using sp_train_D[of T b s] by simp

lemma sp_train_batch:
  "saved_paths (trace (state_of (train_batch T e n b s))) = saved_paths (trace s)"
  unfolding train_batch_def
  by (rule then_do_keeps[where proj = "\<lambda>s. saved_paths (trace s)"])
     (auto split: prod.splits intro!: then_do_keeps[where proj = "\<lambda>s. saved_paths (trace s)"]
        simp: sp_train_D_pair)

lemma sp_train_pass:
  "saved_paths (trace (state_of (train_pass T e n trl s))) = saved_paths (trace s)"
proof -
  have "saved_paths (trace (state_of (for_each (train_batch T e n) trl s0))) = saved_paths (trace s0)"
    for s0 :: "'a state"
    by (rule for_each_keeps[where proj = "\<lambda>s. saved_paths (trace s)"]) (rule sp_train_batch)
  then show ?thesis by (simp add: train_pass_def)
qed

lemma sp_log_value [simp]:
  "saved_paths (trace (state_of (log_value name v n e s))) = saved_paths (trace s)"
  by (simp add: log_value_def split: sum.splits)

lemma sp_log_losses:
  "saved_paths (trace (state_of (log_losses n e s))) = saved_paths (trace s)"
  unfolding log_losses_def
  by (simp add: then_do_keeps[where proj = "\<lambda>s. saved_paths (trace s)"])

lemma sp_log_validation:
  "saved_paths (trace (state_of (log_validation n e s))) = saved_paths (trace s)"
  unfolding log_validation_def
  by (simp add: then_do_keeps[where proj = "\<lambda>s. saved_paths (trace s)"])

lemma sp_save_model_parameters:
  "saved_paths (trace (save_model_parameters T e s)) = saved_paths (trace s) @ epoch_checkpoints T e"
  by (simp add: save_model_parameters_def epoch_checkpoints_def checkpoint_path_def device_tag_def Let_def)

lemma sp_dev_step:
  "saved_paths (trace (state_of (dev_step T x s))) = saved_paths (trace s)"
  by (simp add: dev_step_def Let_def split: prod.splits sum.splits)

lemma sp_dev_loop:
  "saved_paths (trace (state_of (dev_loop T dvl s))) = saved_paths (trace s)"
proof -
  have "saved_paths (trace (state_of (for_each (dev_step T) dvl s0))) = saved_paths (trace s0)"
    for s0 :: "'a state"
    by (rule for_each_keeps[where proj = "\<lambda>s. saved_paths (trace s)"]) (rule sp_dev_step)
  then show ?thesis by (simp add: dev_loop_def)
qed

lemma sp_save_images:
  "saved_paths (trace (state_of (save_images e s))) = saved_paths (trace s)"
  by (simp add: save_images_def Let_def split: sum.splits)

lemma sp_visualize_results:
  "saved_paths (trace (state_of (visualize_results T dvl e s))) = saved_paths (trace s)"
  unfolding visualize_results_def
  by (intro then_do_keeps[where proj = "\<lambda>s. saved_paths (trace s)"]
        sp_dev_loop sp_save_images sp_log_validation)

lemma for_each_appends:
  assumes "\<And>x s. is_Continue (body x s) \<and> proj (state_of (body x s)) = proj s @ f x"
  shows "is_Continue (for_each body xs s)
         \<and> proj (state_of (for_each body xs s)) = proj s @ concat (map f xs)"
proof (induction xs arbitrary: s)
  case Nil then show ?case by simp
next
  case (Cons x xs)
  from assms[of x s] obtain s1 where b: "body x s = Continue s1" and p: "proj s1 = proj s @ f x"
    by (cases "body x s") auto
  from Cons[of s1] show ?case by (simp add: b p)
qed

lemma for_each_appends_prefix:
  assumes "\<And>x s. proj (state_of (body x s)) = proj s @ f x
             \<or> (\<not> is_Continue (body x s) \<and> proj (state_of (body x s)) = proj s)"
  shows "\<exists>k\<le>length xs. proj (state_of (for_each body xs s)) = proj s @ concat (map f (take k xs))
           \<and> (is_Continue (for_each body xs s) \<longrightarrow> k = length xs)"
proof (induction xs arbitrary: s)
  case Nil then show ?case by simp
next
  case (Cons x xs)
  show ?case
  proof (cases "is_Continue (body x s)")
    case True
    then obtain s1 where b: "body x s = Continue s1" by (cases "body x s") auto
    with assms[of x s] have p: "proj s1 = proj s @ f x" by auto
    from Cons[of s1] obtain k where k: "k \<le> length xs"
      "proj (state_of (for_each body xs s1)) = proj s1 @ concat (map f (take k xs))"
      "is_Continue (for_each body xs s1) \<longrightarrow> k = length xs" by blast
    show ?thesis
      by (rule exI[of _ "Suc k"]) (use k b p in simp)
  next
    case False
    then have e: "for_each body (x # xs) s = body x s" by (cases "body x s") auto
    from assms[of x s] show ?thesis
    proof
      assume "proj (state_of (body x s)) = proj s @ f x"
      then show ?thesis using False e by (intro exI[of _ "Suc 0"]) simp
    next
      assume "\<not> is_Continue (body x s) \<and> proj (state_of (body x s)) = proj s"
      then show ?thesis using e by (intro exI[of _ 0]) simp
    qed
  qed
qed

lemma pretrain_batch_Continue: "is_Continue (pretrain_batch T e b s)"
  by (simp add: pretrain_batch_def Let_def split: prod.splits)

lemma sp_pretrain_batch:
  "saved_paths (trace (state_of (pretrain_batch T e b s))) = saved_paths (trace s)"
  by (simp add: pretrain_batch_def Let_def split: prod.splits)

lemma pretrain_epoch_saves:
  "is_Continue (pretrain_epoch T trl e s)
   \<and> saved_paths (trace (state_of (pretrain_epoch T trl e s)))
       = saved_paths (trace s) @ [pretrain_checkpoint T]"
proof -
  let ?s0 = "s\<lparr>nets := trainG T (nets s)\<rparr>"
  have "is_Continue (for_each (pretrain_batch T e) trl ?s0)
        \<and> saved_paths (trace (state_of (for_each (pretrain_batch T e) trl ?s0)))
            = saved_paths (trace ?s0) @ concat (map (\<lambda>x. []) trl)"
    by (rule for_each_appends[where proj = "\<lambda>s. saved_paths (trace s)"])
       (simp add: pretrain_batch_Continue sp_pretrain_batch)
  then obtain s1 where l: "for_each (pretrain_batch T e) trl ?s0 = Continue s1"
      and p: "saved_paths (trace s1) = saved_paths (trace s)"
    by (cases "for_each (pretrain_batch T e) trl ?s0") auto
  show ?thesis
    by (simp add: pretrain_epoch_def l p pretrain_checkpoint_def device_tag_def)
qed

lemma pretrain_saves:
  "is_Continue (pretrain T trl s)
   \<and> saved_paths (trace (state_of (pretrain T trl s)))
       = saved_paths (trace s) @ replicate 5 (pretrain_checkpoint T)"
proof -
  let ?s0 = "s\<lparr>nets := adamG T (nets s)\<rparr>"
  have r: "py_range 1 (n_epoch_pretrain + 1) = [1, 2, 3, 4, 5]"
    by (simp add: py_range_def n_epoch_pretrain_def upto.simps)
  have "is_Continue (for_each (pretrain_epoch T trl) [1, 2, 3, 4, 5] ?s0)
        \<and> saved_paths (trace (state_of (for_each (pretrain_epoch T trl) [1, 2, 3, 4, 5] ?s0)))
            = saved_paths (trace ?s0) @ concat (map (\<lambda>x. [pretrain_checkpoint T]) [1, 2, 3, 4, 5 :: int])"
    by (rule for_each_appends[where proj = "\<lambda>s. saved_paths (trace s)"])
       (rule pretrain_epoch_saves)
  then show ?thesis by (simp add: pretrain_def r numeral_eq_Suc)
qed

lemma adversarial_epoch_saves:
  "saved_paths (trace (state_of (adversarial_epoch T n trl dvl e s)))
       = saved_paths (trace s) @ epoch_checkpoints T e
   \<or> (\<not> is_Continue (adversarial_epoch T n trl dvl e s)
       \<and> saved_paths (trace (state_of (adversarial_epoch T n trl dvl e s))) = saved_paths (trace s))"
proof (cases "train_pass T e n trl s")
  case (Continue s1)
  have p1: "saved_paths (trace s1) = saved_paths (trace s)"
    using sp_train_pass[of T e n trl s] Continue by simp
  show ?thesis
  proof (cases "log_losses (length trl) e s1")
    case c2: (Continue s2)
    have p2: "saved_paths (trace s2) = saved_paths (trace s1)"
      using sp_log_losses[of "length trl" e s1] c2 by simp
    have "adversarial_epoch T n trl dvl e s
            = visualize_results T dvl e (save_model_parameters T e s2)"
      by (simp add: adversarial_epoch_def Continue c2)
    then show ?thesis
      by (simp add: sp_visualize_results sp_save_model_parameters p1 p2)
  next
    case (Return s2)
    have "saved_paths (trace s2) = saved_paths (trace s1)"
      using sp_log_losses[of "length trl" e s1] Return by simp
    then show ?thesis by (simp add: adversarial_epoch_def Continue Return p1)
  next
    case (Raise err s2)
    have "saved_paths (trace s2) = saved_paths (trace s1)"
      using sp_log_losses[of "length trl" e s1] Raise by simp
    then show ?thesis by (simp add: adversarial_epoch_def Continue Raise p1)
  qed
next
  case (Return s1)
  have "saved_paths (trace s1) = saved_paths (trace s)"
    using sp_train_pass[of T e n trl s] Return by simp
  then show ?thesis by (simp add: adversarial_epoch_def Return)
next
  case (Raise err s1)
  have "saved_paths (trace s1) = saved_paths (trace s)"
    using sp_train_pass[of T e n trl s] Raise by simp
  then show ?thesis by (simp add: adversarial_epoch_def Raise)
qed

lemma epochs_saves:
  "\<exists>k\<le>length es.
     saved_paths (trace (state_of (for_each (adversarial_epoch T n trl dvl) es s)))
       = saved_paths (trace s) @ concat (map (epoch_checkpoints T) (take k es))
     \<and> (is_Continue (for_each (adversarial_epoch T n trl dvl) es s) \<longrightarrow> k = length es)"
  by (rule for_each_appends_prefix[where proj = "\<lambda>s. saved_paths (trace s)"])
     (rule adversarial_epoch_saves)

lemma then_do_assoc: "then_do (then_do r f) g = then_do r (\<lambda>s. then_do (f s) g)"
  by (cases r) auto

lemma main_split:
  "main T opt trl dvl s =
     then_do (main_prologue T (check_point opt) trl s)
       (for_each (adversarial_epoch T (num_epochs opt) trl dvl)
          (epoch_range (check_point opt) (num_epochs opt)))"
  by (simp add: main_def main_prologue_def Let_def then_do_assoc)

lemma main_prologue_saves:
  "saved_paths (trace (state_of (main_prologue T cp trl s)))
     = saved_paths (trace s) @ (if cp = - 1 then replicate 5 (pretrain_checkpoint T) else [])"
proof (cases "cp = - 1")
  case True
  from pretrain_saves[of T trl s] obtain s1 where
    p: "pretrain T trl s = Continue s1"
    and q: "saved_paths (trace s1) = saved_paths (trace s) @ replicate 5 (pretrain_checkpoint T)"
    by (cases "pretrain T trl s") auto
  show ?thesis using True by (simp add: main_prologue_def p q)
next
  case False
  then show ?thesis by (simp add: main_prologue_def sp_load_checkpoint)
qed

lemma main_saves:
  "\<exists>k\<le>length (epoch_range (check_point opt) (num_epochs opt)).
     saved_paths (trace (state_of (main T opt trl dvl s)))
       = saved_paths (trace s)
         @ (if check_point opt = - 1 then replicate 5 (pretrain_checkpoint T) else [])
         @ concat (map (epoch_checkpoints T)
             (take k (epoch_range (check_point opt) (num_epochs opt))))
     \<and> (is_Continue (main T opt trl dvl s)
          \<longrightarrow> k = length (epoch_range (check_point opt) (num_epochs opt)))"
proof (cases "main_prologue T (check_point opt) trl s")
  case (Continue s1)
  have p: "saved_paths (trace s1) = saved_paths (trace s)
     @ (if check_point opt = - 1 then replicate 5 (pretrain_checkpoint T) else [])"
    using main_prologue_saves[of T "check_point opt" trl s] Continue by simp
  from epochs_saves[of "epoch_range (check_point opt) (num_epochs opt)" T "num_epochs opt" trl dvl s1]
  show ?thesis by (simp add: main_split Continue p)
next
  case (Return s1)
  have p: "saved_paths (trace s1) = saved_paths (trace s)
     @ (if check_point opt = - 1 then replicate 5 (pretrain_checkpoint T) else [])"
    using main_prologue_saves[of T "check_point opt" trl s] Return by simp
  show ?thesis by (rule exI[of _ 0]) (simp add: main_split Return p)
next
  case (Raise err s1)
  have p: "saved_paths (trace s1) = saved_paths (trace s)
     @ (if check_point opt = - 1 then replicate 5 (pretrain_checkpoint T) else [])"
    using main_prologue_saves[of T "check_point opt" trl s] Raise by simp
  show ?thesis by (rule exI[of _ 0]) (simp add: main_split Raise p)
qed

section \<open>The visualisation list\<close>

lemma dev_step_cases:
  "(\<exists>s1. dev_step T x s = Continue s1
        \<and> length (dev_images s1) = (if length (dev_images s) < 60 then length (dev_images s) + 3
                                     else length (dev_images s)))
   \<or> (\<not> is_Continue (dev_step T x s) \<and> state_of (dev_step T x s) = s)"
  by (cases x) (simp add: dev_step_def Let_def emit_def split: sum.splits)

lemma dev_images_loop:
  assumes "length (dev_images s) = 3 * j" and "j \<le> 20"
  shows "\<exists>k\<le>length xs.
           length (dev_images (state_of (for_each (dev_step T) xs s))) = 3 * min (j + k) 20
           \<and> (is_Continue (for_each (dev_step T) xs s) \<longrightarrow> k = length xs)"
  using assms
proof (induction xs arbitrary: s j)
  case Nil
  then show ?case by simp
next
  case (Cons x xs)
  from dev_step_cases[of T x s] show ?case
  proof
    assume "\<exists>s1. dev_step T x s = Continue s1
        \<and> length (dev_images s1) = (if length (dev_images s) < 60 then length (dev_images s) + 3
                                     else length (dev_images s))"
    then obtain s1 where c: "dev_step T x s = Continue s1"
      and l: "length (dev_images s1) = (if length (dev_images s) < 60 then length (dev_images s) + 3
                                     else length (dev_images s))" by blast
    have l1: "length (dev_images s1) = 3 * min (j + 1) 20" and j1: "min (j + 1) 20 \<le> 20"
      using l Cons.prems by (auto simp: min_def)
    from Cons.IH[OF l1 j1] obtain k where k: "k \<le> length xs"
      "length (dev_images (state_of (for_each (dev_step T) xs s1))) = 3 * min (min (j + 1) 20 + k) 20"
      "is_Continue (for_each (dev_step T) xs s1) \<longrightarrow> k = length xs" by blast
    have "min (min (j + 1) 20 + k) 20 = min (j + Suc k) 20" by (simp add: min_def)
    then show ?thesis using k c by (intro exI[of _ "Suc k"]) simp
  next
    assume a: "\<not> is_Continue (dev_step T x s) \<and> state_of (dev_step T x s) = s"
    then have "for_each (dev_step T) (x # xs) s = dev_step T x s"
      by (cases "dev_step T x s") auto
    then show ?thesis using a Cons.prems by (intro exI[of _ 0]) (simp add: min_def)
  qed
qed

text \<open>
  Claim C5. The list of visualisation images never holds more than 60 tensors. A validation
  pass that completes over \<open>n\<close> samples has collected \<open>3 * min n 20\<close> images, hence exactly
  60 when there are more than 20 samples.
\<close>

theorem visualization_cap:
  "length (dev_images (state_of (dev_loop T dvl s))) \<le> 60
   \<and> (is_Continue (dev_loop T dvl s)
        \<longrightarrow> length (dev_images (state_of (dev_loop T dvl s))) = 3 * min (length dvl) 20)
   \<and> (is_Continue (dev_loop T dvl s) \<and> 20 < length dvl
        \<longrightarrow> length (dev_images (state_of (dev_loop T dvl s))) = 60)"
proof -
  let ?s0 = "s\<lparr>nets := evalG T (nets s), dev_images := []\<rparr>"
  have "length (dev_images ?s0) = 3 * 0" by simp
  from dev_images_loop[OF this, of dvl T] obtain k where k: "k \<le> length dvl"
    "length (dev_images (state_of (for_each (dev_step T) dvl ?s0))) = 3 * min (0 + k) 20"
    "is_Continue (for_each (dev_step T) dvl ?s0) \<longrightarrow> k = length dvl" by auto
  then show ?thesis by (auto simp: dev_loop_def min_def)
qed

section \<open>Printed warnings and early return\<close>

lemma printed_append [simp]: "printed (xs @ ys) = printed xs @ printed ys"
  by (induction xs rule: printed.induct) auto

lemma printed_map_SaveImage_comp [simp]: "printed (map (SaveImage \<circ> f) ls) = []"
  by (induction ls) auto

lemma printed_map_SaveImage [simp]: "printed (map SaveImage ls) = []"
  by (induction ls) auto

lemma quietI:
  "\<not> is_Return r \<Longrightarrow> trace (state_of r) = trace s @ evs \<Longrightarrow> printed evs = [] \<Longrightarrow> quiet s r"
  unfolding quiet_def by blast

lemma quiet_then_do:
  assumes "quiet s r" and "\<And>s1. r = Continue s1 \<Longrightarrow> quiet s1 (g s1)"
  shows "quiet s (then_do r g)"
proof (cases r)
  case (Continue s1)
  from assms(1) Continue obtain e1 where e1: "trace s1 = trace s @ e1" "printed e1 = []"
    unfolding quiet_def by auto
  from assms(2)[OF Continue] obtain e2 where
    e2: "\<not> is_Return (g s1)" "trace (state_of (g s1)) = trace s1 @ e2" "printed e2 = []"
    unfolding quiet_def by auto
  show ?thesis
    by (rule quietI[where evs = "e1 @ e2"]) (simp_all add: Continue e1 e2)
next
  case (Return s1)
  with assms(1) show ?thesis by (simp add: quiet_def)
next
  case (Raise err s1)
  with assms(1) show ?thesis by simp
qed

lemma quiet_for_each:
  assumes "\<And>x s. quiet s (body x s)"
  shows "quiet s (for_each body xs s)"
proof (induction xs arbitrary: s)
  case Nil
  show ?case by (rule quietI[where evs = "[]"]) simp_all
next
  case (Cons x xs)
  show ?case by (simp, rule quiet_then_do) (simp_all add: assms Cons)
qed

lemma guardedI_plain:
  "\<not> is_Return r \<Longrightarrow> trace (state_of r) = trace s @ evs \<Longrightarrow> printed evs = [] \<Longrightarrow> guarded s r"
  unfolding guarded_def by auto

lemma quiet_guarded: "quiet s r \<Longrightarrow> guarded s r"
  unfolding quiet_def guarded_def by auto

lemma guarded_then_do:
  assumes "guarded s r" and "\<And>s1. r = Continue s1 \<Longrightarrow> guarded s1 (g s1)"
  shows "guarded s (then_do r g)"
proof (cases r)
  case (Continue s1)
  from assms(1) Continue obtain e1 where e1: "trace s1 = trace s @ e1" "printed e1 = []"
    unfolding guarded_def by auto
  from assms(2)[OF Continue] obtain e2 where
    e2: "trace (state_of (g s1)) = trace s1 @ e2"
      "if is_Return (g s1)
       then e2 \<noteq> [] \<and> (\<exists>l. last e2 = Print l) \<and> printed (butlast e2) = []
       else printed e2 = []"
    unfolding guarded_def by auto
  have "trace (state_of (g s1)) = trace s @ (e1 @ e2)" by (simp add: e1 e2)
  moreover have "if is_Return (g s1)
       then e1 @ e2 \<noteq> [] \<and> (\<exists>l. last (e1 @ e2) = Print l) \<and> printed (butlast (e1 @ e2)) = []
       else printed (e1 @ e2) = []"
    using e2(2) e1(2) by (auto simp: butlast_append)
  ultimately show ?thesis unfolding guarded_def Continue by (simp del: append_assoc)
next
  case (Return s1)
  with assms(1) show ?thesis by simp
next
  case (Raise err s1)
  with assms(1) show ?thesis by simp
qed

lemma guarded_for_each:
  assumes "\<And>x s. guarded s (body x s)"
  shows "guarded s (for_each body xs s)"
proof (induction xs arbitrary: s)
  case Nil
  show ?case by (rule guardedI_plain[where evs = "[]"]) simp_all
next
  case (Cons x xs)
  show ?case by (simp, rule guarded_then_do) (simp_all add: assms Cons)
qed

lemma np_any_nonempty: "np_any as \<Longrightarrow> as \<noteq> []"
  by (auto simp: np_any_def)

lemma check_grads_shape:
  "check_grads ps name = Inr ([], True)
   \<or> (\<exists>l. check_grads ps name = Inr ([l], False))"
proof (cases "np_any (grad_means ps)")
  case True
  then have "grad_means ps \<noteq> []" by (rule np_any_nonempty)
  then have "\<exists>m. np_max (grad_means ps) = Inr m"
    by (cases "grad_means ps") (simp_all add: np_max_def)
  then obtain m where m: "np_max (grad_means ps) = Inr m" by blast
  show ?thesis
  proof (cases "fgt (np_mean (grad_means ps)) 100")
    case t: True
    then show ?thesis using True by (simp add: check_grads_def)
  next
    case False
    then show ?thesis using True m by (cases "fgt m 100") (simp_all add: check_grads_def)
  qed
next
  case False
  then show ?thesis by (simp add: check_grads_def)
qed

lemma guarded_guard_grads: "guarded s (guard_grads ps name s)"
proof -
  from check_grads_shape[of ps name] show ?thesis
  proof
    assume "check_grads ps name = Inr ([], True)"
    then have "guard_grads ps name s = Continue (emit [] s)" by (simp add: guard_grads_def)
    then show ?thesis by (intro guardedI_plain[where evs = "[]"]) (simp_all add: emit_def)
  next
    assume "\<exists>l. check_grads ps name = Inr ([l], False)"
    then obtain l where "check_grads ps name = Inr ([l], False)" by blast
    then have "guard_grads ps name s = Return (emit [Print l] s)" by (simp add: guard_grads_def)
    then show ?thesis unfolding guarded_def by (simp add: emit_def)
  qed
qed

lemma trace_train_D:
  "trace (snd (train_D T b s)) = trace s @ [ZeroGrad ''D'', OptimizerStep ''D'']"
  by (simp add: train_D_def Let_def emit_def split: prod.splits)

lemma trace_train_G:
  "\<exists>g i t a. trace (train_G T e n b d s)
     = trace s @ [ZeroGrad ''G'', OptimizerStep ''G'', TrainBar e n d g i t a]"
  by (simp add: train_G_def Let_def emit_def split: prod.splits)

lemma guarded_train_batch: "guarded s (train_batch T e n b s)"
  unfolding train_batch_def
proof (rule guarded_then_do[OF guarded_guard_grads])
  fix s1
  obtain d s2 where td: "train_D T b s1 = (d, s2)" by (cases "train_D T b s1")
  have t2: "trace s2 = trace s1 @ [ZeroGrad ''D'', OptimizerStep ''D'']"
    using trace_train_D[of T b s1] td by simp
  have "guarded s1 (then_do (guard_grads (parametersG T (nets s2)) ''G'' s2)
          (\<lambda>s3. Continue (train_G T e n b d s3)))"
  proof (rule guarded_then_do[where s = s1 and r = "Continue s2" and g = "\<lambda>s2. then_do (guard_grads (parametersG T (nets s2)) ''G'' s2)
          (\<lambda>s3. Continue (train_G T e n b d s3))", simplified])
    show "guarded s1 (Continue s2)"
      by (rule guardedI_plain[where evs = "[ZeroGrad ''D'', OptimizerStep ''D'']"]) (simp_all add: t2)
    show "guarded s2 (then_do (guard_grads (parametersG T (nets s2)) ''G'' s2)
          (\<lambda>s3. Continue (train_G T e n b d s3)))"
    proof (rule guarded_then_do[OF guarded_guard_grads])
      fix s3
      from trace_train_G[of T e n b d s3] obtain g i t a where
        "trace (train_G T e n b d s3)
           = trace s3 @ [ZeroGrad ''G'', OptimizerStep ''G'', TrainBar e n d g i t a]" by blast
      then show "guarded s3 (Continue (train_G T e n b d s3))"
        by (intro guardedI_plain[where evs = "[ZeroGrad ''G'', OptimizerStep ''G'', TrainBar e n d g i t a]"])
           simp_all
    qed
  qed
  then show "guarded s1 (let (d_loss_item, s1a) = train_D T b s1 in
       then_do (guard_grads (parametersG T (nets s1a)) ''G'' s1a)
         (\<lambda>s2. Continue (train_G T e n b d_loss_item s2)))"
    by (simp add: td)
qed

lemma guarded_train_pass: "guarded s (train_pass T e n trl s)"
proof -
  let ?s0 = "s\<lparr>nets := trainD T (trainG T (nets s)), cache := new_cache\<rparr>"
  have "guarded ?s0 (for_each (train_batch T e n) trl ?s0)"
    by (rule guarded_for_each) (rule guarded_train_batch)
  then show ?thesis by (simp add: train_pass_def guarded_def)
qed

lemma quiet_Continue_emit:
  "printed evs = [] \<Longrightarrow> trace s' = trace s \<Longrightarrow> quiet s (Continue (emit evs s'))"
  by (rule quietI[where evs = evs]) (simp_all add: emit_def)

lemma quiet_Raise: "quiet s (Raise e s)"
  by (rule quietI[where evs = "[]"]) simp_all

lemma quiet_Continue: "trace s' = trace s \<Longrightarrow> quiet s (Continue s')"
  by (rule quietI[where evs = "[]"]) simp_all

lemma quiet_log_value: "quiet s (log_value name v n e s)"
  by (auto simp: log_value_def split: sum.splits intro: quiet_Raise quiet_Continue_emit)

lemma quiet_log_losses: "quiet s (log_losses n e s)"
  unfolding log_losses_def
  by (auto intro!: quiet_then_do quiet_log_value quiet_Continue)

lemma quiet_log_validation: "quiet s (log_validation n e s)"
  unfolding log_validation_def
  by (auto intro!: quiet_then_do quiet_log_value quiet_Continue)

lemma quiet_torch_save: "quiet s (Continue (torch_save p s))"
  by (rule quietI[where evs = "[TorchSave p]"]) (simp_all add: torch_save_def emit_def)

lemma trace_save_model_parameters:
  "\<exists>evs. trace (save_model_parameters T e s) = trace s @ evs \<and> printed evs = []"
  by (simp add: save_model_parameters_def torch_save_def emit_def Let_def)

lemma quiet_dev_step: "quiet s (dev_step T x s)"
  by (cases x)
     (auto simp: dev_step_def Let_def emit_def split: sum.splits
        intro!: quiet_Raise quietI[where evs = "[DevBar a b]" for a b])

lemma quiet_dev_loop: "quiet s (dev_loop T dvl s)"
proof -
  let ?s0 = "s\<lparr>nets := evalG T (nets s), dev_images := []\<rparr>"
  have "quiet ?s0 (for_each (dev_step T) dvl ?s0)"
    by (rule quiet_for_each) (rule quiet_dev_step)
  then show ?thesis by (simp add: dev_loop_def quiet_def)
qed

lemma quiet_save_images: "quiet s (save_images e s)"
  by (auto simp: save_images_def Let_def split: sum.splits
        intro!: quiet_Raise quiet_Continue_emit)

lemma quiet_visualize_results: "quiet s (visualize_results T dvl e s)"
  unfolding visualize_results_def
  by (intro quiet_then_do quiet_dev_loop quiet_save_images quiet_log_validation)

lemma quiet_pretrain_batch: "quiet s (pretrain_batch T e b s)"
  by (auto simp: pretrain_batch_def Let_def split: prod.splits intro!: quiet_Continue_emit)

lemma quiet_pretrain_epoch: "quiet s (pretrain_epoch T trl e s)"
proof -
  let ?s0 = "s\<lparr>nets := trainG T (nets s)\<rparr>"
  have "quiet ?s0 (for_each (pretrain_batch T e) trl ?s0)"
    by (rule quiet_for_each) (rule quiet_pretrain_batch)
  then have "quiet s (for_each (pretrain_batch T e) trl ?s0)" by (simp add: quiet_def)
  then show ?thesis unfolding pretrain_epoch_def
    by (rule quiet_then_do) (auto intro: quiet_torch_save)
qed

lemma quiet_pretrain: "quiet s (pretrain T trl s)"
proof -
  let ?s0 = "s\<lparr>nets := adamG T (nets s)\<rparr>"
  have "quiet ?s0 (for_each (pretrain_epoch T trl) (py_range 1 (n_epoch_pretrain + 1)) ?s0)"
    by (rule quiet_for_each) (rule quiet_pretrain_epoch)
  then show ?thesis by (simp add: pretrain_def quiet_def)
qed

lemma quiet_torch_load: "quiet s (torch_load T c p s)"
  by (auto simp: torch_load_def intro!: quiet_Raise quiet_Continue_emit)

lemma quiet_load_checkpoint: "quiet s (load_checkpoint T cp s)"
  unfolding load_checkpoint_def
  by (auto intro!: quiet_then_do quiet_torch_load)

lemma quiet_same_trace: "quiet s' r \<Longrightarrow> trace s' = trace s \<Longrightarrow> quiet s r"
  by (simp add: quiet_def)

lemma quiet_main_prologue: "quiet s (main_prologue T cp trl s)"
proof (cases "cp = - 1")
  case True
  have "quiet s (then_do (pretrain T trl s)
          (\<lambda>s. Continue (s\<lparr>nets := adamD T (adamG T (nets s))\<rparr>)))"
    by (rule quiet_then_do[OF quiet_pretrain]) (simp add: quiet_Continue)
  then show ?thesis using True by (simp add: main_prologue_def)
next
  case False
  have "quiet s (load_checkpoint T cp (s\<lparr>nets := adamD T (adamG T (nets s))\<rparr>))"
    by (rule quiet_same_trace[OF quiet_load_checkpoint]) simp
  then show ?thesis using False by (simp add: main_prologue_def)
qed

lemma guarded_adversarial_epoch: "guarded s (adversarial_epoch T n trl dvl e s)"
  unfolding adversarial_epoch_def
proof (intro guarded_then_do guarded_train_pass quiet_guarded quiet_log_losses)
  fix s1 s2 :: "'a state"
  from trace_save_model_parameters[of T e s2] obtain evs where
    evs: "trace (save_model_parameters T e s2) = trace s2 @ evs" "printed evs = []" by blast
  have "quiet (save_model_parameters T e s2)
          (visualize_results T dvl e (save_model_parameters T e s2))"
    by (rule quiet_visualize_results)
  then show "quiet s2 (visualize_results T dvl e (save_model_parameters T e s2))"
    unfolding quiet_def using evs by auto
qed

lemma guarded_main: "guarded s (main T opt trl dvl s)"
  unfolding main_split
  by (intro guarded_then_do guarded_for_each guarded_adversarial_epoch quiet_guarded
        quiet_main_prologue)

lemma emit_Nil [simp]: "emit [] s = s"
  by (simp add: emit_def)

lemma train_batch_D_unhealthy:
  "check_grads (parametersD T (nets s)) ''D'' = Inr (w, False)
   \<Longrightarrow> train_batch T e n b s = Return (emit (map Print w) s)"
  by (simp add: train_batch_def guard_grads_def)

lemma train_batch_G_unhealthy:
  assumes "check_grads (parametersD T (nets s)) ''D'' = Inr ([], True)"
    and "check_grads (parametersG T (nets (snd (train_D T b s)))) ''G'' = Inr (w, False)"
  shows "train_batch T e n b s = Return (emit (map Print w) (snd (train_D T b s)))"
  using assms by (simp add: train_batch_def guard_grads_def case_prod_beta)

lemma train_batch_healthy:
  assumes "check_grads (parametersD T (nets s)) ''D'' = Inr ([], True)"
    and "check_grads (parametersG T (nets (snd (train_D T b s)))) ''G'' = Inr ([], True)"
  shows "train_batch T e n b s
           = Continue (train_G T e n b (fst (train_D T b s)) (snd (train_D T b s)))"
  using assms by (simp add: train_batch_def guard_grads_def case_prod_beta)

text \<open>
  Claim C7. When the check of the discriminator's gradients fails, the batch returns from
  \<^verbatim>\<open>main\<close> with nothing done but the warning printed, and the batch loop stops there.
  When the generator's check fails, the discriminator update of that batch has been applied,
  the generator update has not, and the loop stops there. For the whole run: a printed
  warning is always the last event of the trace, and then the run has returned early.
\<close>

theorem unhealthy_gradients_abort_run:
  "(check_grads (parametersD T (nets s)) ''D'' = Inr (w, False)
      \<longrightarrow> train_batch T e n b s = Return (emit (map Print w) s)
          \<and> for_each (train_batch T e n) (b # bs) s = Return (emit (map Print w) s))
   \<and> (check_grads (parametersD T (nets s)) ''D'' = Inr ([], True)
       \<and> check_grads (parametersG T (nets (snd (train_D T b s)))) ''G'' = Inr (w, False)
      \<longrightarrow> train_batch T e n b s = Return (emit (map Print w) (snd (train_D T b s)))
          \<and> for_each (train_batch T e n) (b # bs) s
              = Return (emit (map Print w) (snd (train_D T b s))))
   \<and> guarded s0 (main T opt trl dvl s0)"
  by (simp add: train_batch_D_unhealthy train_batch_G_unhealthy guarded_main)

section \<open>Epoch averages of the training losses\<close>

lemma recorded_append [simp]: "recorded m (xs @ ys) = recorded m xs @ recorded m ys"
  by (simp add: recorded_def)

lemma recorded_Nil [simp]: "recorded m [] = []"
  by (simp add: recorded_def)

lemma then_do_Continue_iff:
  "then_do r g = Continue s1 \<longleftrightarrow> (\<exists>s'. r = Continue s' \<and> g s' = Continue s1)"
  by (cases r) auto

lemma train_batch_Continue:
  assumes "train_batch T e n b s = Continue s1"
  shows "\<exists>evs. trace s1 = trace s @ evs
           \<and> (\<forall>m. \<exists>v. recorded m evs = [v] \<and> cache_of m (cache s1) = fadd (cache_of m (cache s)) v)"
proof -
  have hD: "check_grads (parametersD T (nets s)) ''D'' = Inr ([], True)"
    using check_grads_shape[of "parametersD T (nets s)" "''D''"] assms
    by (auto simp: train_batch_D_unhealthy)
  have hG: "check_grads (parametersG T (nets (snd (train_D T b s)))) ''G'' = Inr ([], True)"
    using check_grads_shape[of "parametersG T (nets (snd (train_D T b s)))" "''G''"] assms hD
    by (auto simp: train_batch_G_unhealthy)
  have s1: "s1 = train_G T e n b (fst (train_D T b s)) (snd (train_D T b s))"
    using train_batch_healthy[OF hD hG, of e n] assms by simp
  obtain d m2 where db: "d_backward T b (zero_gradD T (nets s)) = (d, m2)"
    by (cases "d_backward T b (zero_gradD T (nets s))")
  obtain i a t g m4 where gb: "g_backward T b (zero_gradG T (stepD T m2)) = ((i, a, t, g), m4)"
    by (cases "g_backward T b (zero_gradG T (stepD T m2))") auto
  let ?evs = "[ZeroGrad ''D'', OptimizerStep ''D'', ZeroGrad ''G'', OptimizerStep ''G'',
               TrainBar e n d g i t a]"
  have tr: "trace s1 = trace s @ ?evs"
    unfolding s1 by (simp add: train_G_def train_D_def Let_def emit_def db gb)
  have c: "cache s1 = (cache s)\<lparr>d_loss := fadd (d_loss (cache s)) d,
              mse_loss := fadd (mse_loss (cache s)) i,
              tv_loss := fadd (tv_loss (cache s)) t,
              adv_loss := fadd (adv_loss (cache s)) a,
              g_loss := fadd (g_loss (cache s)) g\<rparr>"
    unfolding s1 by (simp add: train_G_def train_D_def Let_def emit_def db gb)
  have "\<exists>v. recorded m ?evs = [v] \<and> cache_of m (cache s1) = fadd (cache_of m (cache s)) v" for m
    by (cases m) (simp_all add: recorded_def c)
  with tr show ?thesis by blast
qed

lemma train_loop_sums:
  assumes "for_each (train_batch T e n) bs s = Continue s1"
  shows "\<exists>evs. trace s1 = trace s @ evs
     \<and> (\<forall>m. length (recorded m evs) = length bs
            \<and> cache_of m (cache s1) = foldl fadd (cache_of m (cache s)) (recorded m evs))"
  using assms
proof (induction bs arbitrary: s)
  case Nil
  then show ?case by (intro exI[of _ "[]"]) simp
next
  case (Cons b bs)
  from Cons.prems obtain s' where b: "train_batch T e n b s = Continue s'"
    and r: "for_each (train_batch T e n) bs s' = Continue s1"
    by (auto simp: then_do_Continue_iff)
  from train_batch_Continue[OF b] obtain e1 where
    h: "trace s' = trace s @ e1"
       "\<forall>m. \<exists>v. recorded m e1 = [v] \<and> cache_of m (cache s') = fadd (cache_of m (cache s)) v"
    by blast
  from Cons.IH[OF r] obtain e2 where
    i: "trace s1 = trace s' @ e2"
       "\<forall>m. length (recorded m e2) = length bs
            \<and> cache_of m (cache s1) = foldl fadd (cache_of m (cache s')) (recorded m e2)"
    by blast
  have "length (recorded m (e1 @ e2)) = length (b # bs)
        \<and> cache_of m (cache s1) = foldl fadd (cache_of m (cache s)) (recorded m (e1 @ e2))" for m
  proof -
    from h(2) obtain v where v: "recorded m e1 = [v]"
      "cache_of m (cache s') = fadd (cache_of m (cache s)) v" by blast
    from i(2) have "length (recorded m e2) = length bs"
      "cache_of m (cache s1) = foldl fadd (cache_of m (cache s')) (recorded m e2)" by auto
    then show ?thesis by (simp add: v)
  qed
  then show ?case using h(1) i(1) by (intro exI[of _ "e1 @ e2"]) simp
qed

lemma emit_emit [simp]: "emit b (emit a s) = emit (a @ b) s"
  by (simp add: emit_def)

lemma cache_emit [simp]: "cache (emit evs s) = cache s"
  by (simp add: emit_def)

lemma log_value_positive:
  "0 < n \<Longrightarrow> log_value name v n e s
     = Continue (emit [LogValue name (case v of Fin x \<Rightarrow> Fin (x / real n) | w \<Rightarrow> w) e] s)"
  by (cases v) (simp_all add: log_value_def)

lemma log_losses_positive:
  assumes "0 < n"
  shows "log_losses n e s =
    Continue (emit (map (\<lambda>m. LogValue (metric_name m)
                (case cache_of m (cache s) of Fin x \<Rightarrow> Fin (x / real n) | w \<Rightarrow> w) e)
              [D_loss, Mse_loss, Tv_loss, Adv_loss, G_loss]) s)"
  by (simp add: log_losses_def use_tensorboard_def log_value_positive[OF assms])

lemma log_losses_zero: "log_losses 0 e s = Raise ZeroDivisionError s"
  by (simp add: log_losses_def use_tensorboard_def log_value_def)

lemma foldl_fadd_Fin: "foldl fadd (Fin a) (map Fin rs) = Fin (a + sum_list rs)"
  by (induction rs arbitrary: a) (auto simp: algebra_simps)

lemma average_Fin: "average (map Fin rs) = Fin (sum_list rs / real (length rs))"
  by (simp add: average_def fsum_def foldl_fadd_Fin)

subsection \<open>Pieces of the run that add events of one class\<close>

lemma addsI: "trace (state_of r) = trace s @ evs \<Longrightarrow> P evs \<Longrightarrow> adds P s r"
  unfolding adds_def by blast

lemma adds_then_do:
  assumes "adds (list_all K) s r" and "\<And>s1. r = Continue s1 \<Longrightarrow> adds (list_all K) s1 (g s1)"
  shows "adds (list_all K) s (then_do r g)"
proof (cases r)
  case (Continue s1)
  from assms(1) Continue obtain e1 where e1: "trace s1 = trace s @ e1" "list_all K e1"
    unfolding adds_def by auto
  from assms(2)[OF Continue] obtain e2 where
    e2: "trace (state_of (g s1)) = trace s1 @ e2" "list_all K e2"
    unfolding adds_def by auto
  show ?thesis
    by (rule addsI[where evs = "e1 @ e2"]) (simp_all add: Continue e1 e2)
next
  case (Return s1)
  with assms(1) show ?thesis by simp
next
  case (Raise err s1)
  with assms(1) show ?thesis by simp
qed

lemma adds_for_each:
  assumes "\<And>x s. adds (list_all K) s (body x s)"
  shows "adds (list_all K) s (for_each body xs s)"
proof (induction xs arbitrary: s)
  case Nil
  show ?case by (rule addsI[where evs = "[]"]) simp_all
next
  case (Cons x xs)
  show ?case by (simp, rule adds_then_do) (simp_all add: assms Cons)
qed

lemma adds_Continue_emit:
  "list_all K evs \<Longrightarrow> trace s' = trace s \<Longrightarrow> adds (list_all K) s (Continue (emit evs s'))"
  by (rule addsI[where evs = evs]) (simp_all add: emit_def)

lemma adds_Return_emit:
  "list_all K evs \<Longrightarrow> trace s' = trace s \<Longrightarrow> adds (list_all K) s (Return (emit evs s'))"
  by (rule addsI[where evs = evs]) (simp_all add: emit_def)

lemma adds_Raise: "adds (list_all K) s (Raise e s)"
  by (rule addsI[where evs = "[]"]) simp_all

lemma adds_Continue: "trace s' = trace s \<Longrightarrow> adds (list_all K) s (Continue s')"
  by (rule addsI[where evs = "[]"]) simp_all

lemma adds_same_trace: "adds P s' r \<Longrightarrow> trace s' = trace s \<Longrightarrow> adds P s r"
  by (simp add: adds_def)

lemma adds_after:
  assumes "trace s' = trace s @ e1" "list_all K e1" "adds (list_all K) s' r"
  shows "adds (list_all K) s r"
proof -
  from assms(3) obtain e2 where "trace (state_of r) = trace s' @ e2" "list_all K e2"
    unfolding adds_def by auto
  then show ?thesis using assms(1,2) by (intro addsI[where evs = "e1 @ e2"]) simp_all
qed

lemma adds_guard_grads: "adds (list_all train_event) s (guard_grads ps name s)"
  using check_grads_shape[of ps name]
  by (auto simp: guard_grads_def intro!: adds_Continue_emit adds_Return_emit adds_Continue)

lemma adds_train_batch: "adds (list_all train_event) s (train_batch T e n b s)"
  unfolding train_batch_def
proof (rule adds_then_do[OF adds_guard_grads])
  fix s1
  obtain d s2 where td: "train_D T b s1 = (d, s2)" by (cases "train_D T b s1")
  have t2: "trace s2 = trace s1 @ [ZeroGrad ''D'', OptimizerStep ''D'']"
    using trace_train_D[of T b s1] td by simp
  have "adds (list_all train_event) s2
          (then_do (guard_grads (parametersG T (nets s2)) ''G'' s2)
             (\<lambda>s3. Continue (train_G T e n b d s3)))"
  proof (rule adds_then_do[OF adds_guard_grads])
    fix s3
    from trace_train_G[of T e n b d s3] obtain g i t a where
      "trace (train_G T e n b d s3)
         = trace s3 @ [ZeroGrad ''G'', OptimizerStep ''G'', TrainBar e n d g i t a]" by blast
    then show "adds (list_all train_event) s3 (Continue (train_G T e n b d s3))"
      by (intro addsI[where evs = "[ZeroGrad ''G'', OptimizerStep ''G'', TrainBar e n d g i t a]"])
         simp_all
  qed
  then have "adds (list_all train_event) s1
          (then_do (guard_grads (parametersG T (nets s2)) ''G'' s2)
             (\<lambda>s3. Continue (train_G T e n b d s3)))"
    by (rule adds_after[OF t2, rotated]) simp
  then show "adds (list_all train_event) s1 (let (d_loss_item, s1a) = train_D T b s1 in
       then_do (guard_grads (parametersG T (nets s1a)) ''G'' s1a)
         (\<lambda>s2. Continue (train_G T e n b d_loss_item s2)))"
    by (simp add: td)
qed

lemma adds_train_pass: "adds (list_all train_event) s (train_pass T e n trl s)"
proof -
  let ?s0 = "s\<lparr>nets := trainD T (trainG T (nets s)), cache := new_cache\<rparr>"
  have "adds (list_all train_event) ?s0 (for_each (train_batch T e n) trl ?s0)"
    by (rule adds_for_each) (rule adds_train_batch)
  then show ?thesis unfolding train_pass_def by (rule adds_same_trace) simp
qed

lemma adds_save_model_parameters:
  "\<exists>evs. trace (save_model_parameters T e s) = trace s @ evs \<and> list_all epoch_end_event evs"
  by (simp add: save_model_parameters_def torch_save_def emit_def Let_def)

lemma adds_log_validation_value:
  "name = ''ssim'' \<or> name = ''psnr'' \<Longrightarrow> adds (list_all epoch_end_event) s (log_value name v n e s)"
  by (cases "py_truediv v (Fin (real n))")
     (auto simp: log_value_def intro!: adds_Raise adds_Continue_emit)

lemma adds_log_validation: "adds (list_all epoch_end_event) s (log_validation n e s)"
  unfolding log_validation_def
  by (auto intro!: adds_then_do adds_log_validation_value adds_Continue)

lemma adds_save_images: "adds (list_all epoch_end_event) s (save_images e s)"
proof (cases "torch_stack (dev_images s)")
  case (Inl err)
  then show ?thesis by (simp add: save_images_def adds_Raise)
next
  case (Inr stacked)
  show ?thesis
  proof (cases "torch_chunk stacked (length stacked div 3)")
    case (Inl err)
    then show ?thesis by (simp add: save_images_def Inr adds_Raise)
  next
    case chunks: (Inr chunks)
    show ?thesis
      unfolding adds_def
      by (simp add: save_images_def Inr chunks Let_def emit_def list_all_iff del: upt_Suc)
  qed
qed

lemma adds_dev_step: "adds (list_all epoch_end_event) s (dev_step T x s)"
proof -
  obtain a b c where x: "x = (a, b, c)" by (cases x)
  show ?thesis
  proof (cases "validation_psnr (generate T (nets s) a) c")
    case (Inl err)
    then show ?thesis by (simp add: dev_step_def x adds_Raise)
  next
    case (Inr p)
    then show ?thesis
      by (auto simp: dev_step_def x Let_def emit_def
               intro!: addsI[where evs = "[DevBar p (pytorch_ssim T (generate T (nets s) a) c)]"])
  qed
qed

lemma adds_dev_loop: "adds (list_all epoch_end_event) s (dev_loop T dvl s)"
proof -
  let ?s0 = "s\<lparr>nets := evalG T (nets s), dev_images := []\<rparr>"
  have "adds (list_all epoch_end_event) ?s0 (for_each (dev_step T) dvl ?s0)"
    by (rule adds_for_each) (rule adds_dev_step)
  then show ?thesis unfolding dev_loop_def by (rule adds_same_trace) simp
qed

lemma adds_visualize_results: "adds (list_all epoch_end_event) s (visualize_results T dvl e s)"
  unfolding visualize_results_def
  by (intro adds_then_do adds_dev_loop adds_save_images adds_log_validation)

lemma adds_epoch_end:
  "adds (list_all epoch_end_event) s (visualize_results T dvl e (save_model_parameters T e s))"
proof -
  from adds_save_model_parameters[of T e s] obtain e1 where
    e1: "trace (save_model_parameters T e s) = trace s @ e1" "list_all epoch_end_event e1"
    by blast
  show ?thesis by (rule adds_after[OF e1 adds_visualize_results])
qed

subsection \<open>What the event classes leave out\<close>

lemma logged_append [simp]: "logged (xs @ ys) = logged xs @ logged ys"
  by (induction xs rule: logged.induct) simp_all

lemma metric_logs_append [simp]: "metric_logs (xs @ ys) = metric_logs xs @ metric_logs ys"
  by (simp add: metric_logs_def)

lemma metric_logs_Nil [simp]: "metric_logs [] = []"
  by (simp add: metric_logs_def)

lemma bar_epochs_append [simp]: "bar_epochs (xs @ ys) = bar_epochs xs @ bar_epochs ys"
  by (induction xs rule: bar_epochs.induct) simp_all

lemma marks_append [simp]: "marks (xs @ ys) = marks xs @ marks ys"
  by (induction xs rule: marks.induct) simp_all

lemma train_event_logged: "list_all train_event evs \<Longrightarrow> logged evs = []"
  by (induction evs rule: logged.induct) simp_all

lemma train_event_metric_logs: "list_all train_event evs \<Longrightarrow> metric_logs evs = []"
  by (simp add: metric_logs_def train_event_logged)

lemma epoch_end_metric_logs: "list_all epoch_end_event evs \<Longrightarrow> metric_logs evs = []"
proof (induction evs)
  case Nil
  show ?case by simp
next
  case (Cons x evs)
  then have "metric_logs evs = []" by simp
  moreover have "metric_logs [x] = []"
    using Cons.prems by (cases x) (auto simp: metric_logs_def metric_names_def)
  ultimately show ?case using metric_logs_append[of "[x]" evs] by simp
qed

lemma epoch_end_recorded: "list_all epoch_end_event evs \<Longrightarrow> recorded m evs = []"
proof (induction evs)
  case Nil
  show ?case by simp
next
  case (Cons x evs)
  then show ?case by (cases x) (simp_all add: recorded_def)
qed

lemma epoch_end_bar_epochs: "list_all epoch_end_event evs \<Longrightarrow> bar_epochs evs = []"
proof (induction evs)
  case Nil
  show ?case by simp
next
  case (Cons x evs)
  then show ?case by (cases x) simp_all
qed

lemma epoch_end_marks: "list_all epoch_end_event evs \<Longrightarrow> marks evs = []"
proof (induction evs)
  case Nil
  show ?case by simp
next
  case (Cons x evs)
  then show ?case by (cases x) simp_all
qed

lemma recorded_LogValue [simp]: "recorded m (map (\<lambda>x. LogValue (f x) (g x) e) xs) = []"
  by (induction xs) (simp_all add: recorded_def)

lemma metric_logs_losses:
  "metric_logs (map (\<lambda>m. LogValue (metric_name m) (g m) e) [D_loss, Mse_loss, Tv_loss, Adv_loss, G_loss])
     = map (\<lambda>m. (metric_name m, g m, e)) [D_loss, Mse_loss, Tv_loss, Adv_loss, G_loss]"
  by (simp add: metric_logs_def metric_names_def)

subsection \<open>The averages logged by an epoch\<close>

lemma train_pass_Continue:
  assumes "train_pass T e n trl s = Continue s1"
  shows "\<exists>evs. trace s1 = trace s @ evs \<and> list_all train_event evs
     \<and> (\<forall>m. length (recorded m evs) = length trl \<and> cache_of m (cache s1) = fsum (recorded m evs))"
proof -
  let ?s0 = "s\<lparr>nets := trainD T (trainG T (nets s)), cache := new_cache\<rparr>"
  from assms have c: "for_each (train_batch T e n) trl ?s0 = Continue s1"
    by (simp add: train_pass_def)
  from train_loop_sums[OF c] obtain evs where evs: "trace s1 = trace ?s0 @ evs"
    "\<forall>m. length (recorded m evs) = length trl
         \<and> cache_of m (cache s1) = foldl fadd (cache_of m (cache ?s0)) (recorded m evs)"
    by blast
  from adds_train_pass[of s T e n trl] assms obtain evs' where
    evs': "trace s1 = trace s @ evs'" "list_all train_event evs'"
    unfolding adds_def by auto
  from evs(1) evs'(1) have same: "evs' = evs" by simp
  have zero: "cache_of m new_cache = Fin 0" for m
    by (cases m) (simp_all add: new_cache_def)
  from evs(2) have "\<forall>m. length (recorded m evs) = length trl
      \<and> cache_of m (cache s1) = fsum (recorded m evs)"
    by (simp add: zero fsum_def)
  with evs' same show ?thesis by blast
qed

text \<open>
  Claim C6. In every adversarial epoch, whatever the accumulator held before it: the five
  training metrics are either not logged at all, or each is logged once, in the order of
  lines 227-232 and for this epoch, with the average of the per-batch values that the batches
  of this epoch recorded, one value per batch of the loader. They are logged as soon as the
  training pass over a non-empty loader completes (they are not when a gradient check fails
  or when the loader is empty, where the division raises). The average is the sum of the
  recorded values divided by their number, \<open>(\<Sum> L\<^sub>i) / N\<close>.
\<close>

theorem epoch_metric_average:
  "(\<exists>evs. trace (state_of (adversarial_epoch T n trl dvl e s)) = trace s @ evs
     \<and> (metric_logs evs = []
        \<or> trl \<noteq> [] \<and> (\<forall>m. length (recorded m evs) = length trl)
          \<and> metric_logs evs
              = map (\<lambda>m. (metric_name m, average (recorded m evs), e))
                  [D_loss, Mse_loss, Tv_loss, Adv_loss, G_loss])
     \<and> (trl \<noteq> [] \<and> is_Continue (train_pass T e n trl s) \<longrightarrow> metric_logs evs \<noteq> []))
   \<and> average (map Fin rs) = Fin (sum_list rs / real (length rs))"
proof -
  define losses where "losses = [D_loss, Mse_loss, Tv_loss, Adv_loss, G_loss]"
  let ?r = "adversarial_epoch T n trl dvl e s"
  have "\<exists>evs. trace (state_of ?r) = trace s @ evs
     \<and> (metric_logs evs = []
        \<or> trl \<noteq> [] \<and> (\<forall>m. length (recorded m evs) = length trl)
          \<and> metric_logs evs = map (\<lambda>m. (metric_name m, average (recorded m evs), e)) losses)
     \<and> (trl \<noteq> [] \<and> is_Continue (train_pass T e n trl s) \<longrightarrow> metric_logs evs \<noteq> [])"
  proof (cases "train_pass T e n trl s")
    case (Continue s1)
    from train_pass_Continue[OF Continue] obtain e1 where e1: "trace s1 = trace s @ e1"
      "list_all train_event e1"
      "\<forall>m. length (recorded m e1) = length trl \<and> cache_of m (cache s1) = fsum (recorded m e1)"
      by blast
    show ?thesis
    proof (cases "trl = []")
      case True
      with Continue have "adversarial_epoch T n trl dvl e s = Raise ZeroDivisionError s1"
        by (simp add: adversarial_epoch_def log_losses_zero)
      then show ?thesis using e1 True
        by (intro exI[of _ e1]) (simp add: train_event_metric_logs)
    next
      case False
      then have pos: "0 < length trl" by simp
      define logs where "logs = map (\<lambda>m. LogValue (metric_name m)
          (case cache_of m (cache s1) of Fin x \<Rightarrow> Fin (x / real (length trl)) | w \<Rightarrow> w) e) losses"
      define s2 where "s2 = emit logs s1"
      have ll: "log_losses (length trl) e s1 = Continue s2"
        by (simp add: log_losses_positive[OF pos] s2_def logs_def losses_def)
      let ?v = "visualize_results T dvl e (save_model_parameters T e s2)"
      have r: "adversarial_epoch T n trl dvl e s = ?v"
        by (simp add: adversarial_epoch_def Continue ll)
      from adds_epoch_end[of s2 T dvl e] obtain e3 where
        e3: "trace (state_of ?v) = trace s2 @ e3" "list_all epoch_end_event e3"
        unfolding adds_def by blast
      have avg: "(case cache_of m (cache s1) of Fin x \<Rightarrow> Fin (x / real (length trl)) | w \<Rightarrow> w)
                 = average (recorded m e1)" for m
      proof -
        from e1(3) have "length (recorded m e1) = length trl"
          "cache_of m (cache s1) = fsum (recorded m e1)" by simp_all
        then show ?thesis by (cases "fsum (recorded m e1)") (simp_all add: average_def)
      qed
      have ml: "metric_logs logs = map (\<lambda>m. (metric_name m, average (recorded m e1), e)) losses"
        unfolding logs_def losses_def by (simp only: metric_logs_losses avg)
      have rl: "recorded m logs = []" for m
        unfolding logs_def by (rule recorded_LogValue)
      let ?evs = "e1 @ logs @ e3"
      have "trace s2 = trace s @ e1 @ logs"
        by (simp add: s2_def emit_def e1)
      then have t: "trace (state_of (adversarial_epoch T n trl dvl e s)) = trace s @ ?evs"
        by (simp only: r e3(1) append_assoc)
      have rec: "recorded m ?evs = recorded m e1" for m
        by (simp add: rl epoch_end_recorded[OF e3(2)])
      have "metric_logs ?evs = metric_logs logs"
        by (simp add: train_event_metric_logs[OF e1(2)] epoch_end_metric_logs[OF e3(2)])
      then have mlogs:
        "metric_logs ?evs = map (\<lambda>m. (metric_name m, average (recorded m ?evs), e)) losses"
        by (simp only: ml rec)
      have len: "\<forall>m. length (recorded m ?evs) = length trl"
        using e1(3) by (simp only: rec) simp
      have ne: "metric_logs ?evs \<noteq> []"
        unfolding mlogs by (simp add: losses_def)
      from t False len mlogs ne show ?thesis by (intro exI[of _ ?evs]) simp
    qed
  next
    case (Return s1)
    from adds_train_pass[of s T e n trl] Return obtain evs where
      "trace s1 = trace s @ evs" "list_all train_event evs"
      unfolding adds_def by auto
    then show ?thesis
      by (intro exI[of _ evs]) (simp add: adversarial_epoch_def Return train_event_metric_logs)
  next
    case (Raise err s1)
    from adds_train_pass[of s T e n trl] Raise obtain evs where
      "trace s1 = trace s @ evs" "list_all train_event evs"
      unfolding adds_def by auto
    then show ?thesis
      by (intro exI[of _ evs]) (simp add: adversarial_epoch_def Raise train_event_metric_logs)
  qed
  then show ?thesis unfolding losses_def by (simp only: average_Fin simp_thms)
qed

section \<open>Batches, loads and epochs of a run\<close>

declare str_nat.simps [simp del]

lemma str_int_negative: "i < 0 \<Longrightarrow> str_int i = CHR ''-'' # str_nat (nat (- i))"
  by (simp add: str_int_def)

lemma for_each_take:
  assumes "\<And>x s. \<exists>k\<le>length (f x). proj (state_of (body x s)) = proj s @ take k (f x)
             \<and> (is_Continue (body x s) \<longrightarrow> k = length (f x))"
  shows "\<exists>k\<le>length (concat (map f xs)).
           proj (state_of (for_each body xs s)) = proj s @ take k (concat (map f xs))
           \<and> (is_Continue (for_each body xs s) \<longrightarrow> k = length (concat (map f xs)))"
proof (induction xs arbitrary: s)
  case Nil
  then show ?case by simp
next
  case (Cons x xs)
  from assms[of x s] obtain k1 where k1: "k1 \<le> length (f x)"
    "proj (state_of (body x s)) = proj s @ take k1 (f x)"
    "is_Continue (body x s) \<longrightarrow> k1 = length (f x)" by blast
  show ?case
  proof (cases "body x s")
    case (Continue s1)
    with k1 have p: "proj s1 = proj s @ f x" by simp
    from Cons[of s1] obtain k where k: "k \<le> length (concat (map f xs))"
      "proj (state_of (for_each body xs s1)) = proj s1 @ take k (concat (map f xs))"
      "is_Continue (for_each body xs s1) \<longrightarrow> k = length (concat (map f xs))" by blast
    show ?thesis by (rule exI[of _ "length (f x) + k"]) (use k p Continue in simp)
  next
    case (Return s1)
    then show ?thesis using k1 by (intro exI[of _ k1]) simp
  next
    case (Raise err s1)
    then show ?thesis using k1 by (intro exI[of _ k1]) simp
  qed
qed

subsection \<open>The steps of the adversarial phase\<close>

lemma marks_emit [simp]: "marks (trace (emit evs s)) = marks (trace s) @ marks evs"
  by (simp add: emit_def)

lemma marks_map_Print [simp]: "marks (map Print ls) = []"
  by (induction ls) auto

lemma marks_guard_grads:
  "marks (trace (state_of (guard_grads ps name s))) = marks (trace s)"
  by (simp add: guard_grads_def split: sum.splits prod.splits)

lemma marks_train_D: "marks (trace (snd (train_D T b s))) = marks (trace s)"
  by (simp add: train_D_def Let_def split: prod.splits)

lemma marks_train_G: "marks (trace (train_G T e n b d s)) = marks (trace s) @ [Trained e]"
  by (simp add: train_G_def Let_def split: prod.splits)

lemma marks_train_batch:
  "\<exists>k\<le>length [Trained e].
     marks (trace (state_of (train_batch T e n b s))) = marks (trace s) @ take k [Trained e]
     \<and> (is_Continue (train_batch T e n b s) \<longrightarrow> k = length [Trained e])"
proof (cases "guard_grads (parametersD T (nets s)) ''D'' s")
  case (Continue s1)
  have m1: "marks (trace s1) = marks (trace s)"
    using marks_guard_grads[of "parametersD T (nets s)" "''D''" s] Continue by simp
  obtain d s2 where td: "train_D T b s1 = (d, s2)" by (cases "train_D T b s1")
  have m2: "marks (trace s2) = marks (trace s)"
    using marks_train_D[of T b s1] td m1 by simp
  have tb: "train_batch T e n b s
      = then_do (guard_grads (parametersG T (nets s2)) ''G'' s2)
          (\<lambda>s3. Continue (train_G T e n b d s3))"
    by (simp add: train_batch_def Continue td)
  show ?thesis
  proof (cases "guard_grads (parametersG T (nets s2)) ''G'' s2")
    case c3: (Continue s3)
    have "marks (trace s3) = marks (trace s)"
      using marks_guard_grads[of "parametersG T (nets s2)" "''G''" s2] c3 m2 by simp
    then show ?thesis by (intro exI[of _ 1]) (simp add: tb c3 marks_train_G)
  next
    case (Return s3)
    have "marks (trace s3) = marks (trace s)"
      using marks_guard_grads[of "parametersG T (nets s2)" "''G''" s2] Return m2 by simp
    then show ?thesis by (intro exI[of _ 0]) (simp add: tb Return)
  next
    case (Raise err s3)
    have "marks (trace s3) = marks (trace s)"
      using marks_guard_grads[of "parametersG T (nets s2)" "''G''" s2] Raise m2 by simp
    then show ?thesis by (intro exI[of _ 0]) (simp add: tb Raise)
  qed
next
  case (Return s1)
  have "marks (trace s1) = marks (trace s)"
    using marks_guard_grads[of "parametersD T (nets s)" "''D''" s] Return by simp
  then show ?thesis by (intro exI[of _ 0]) (simp add: train_batch_def Return)
next
  case (Raise err s1)
  have "marks (trace s1) = marks (trace s)"
    using marks_guard_grads[of "parametersD T (nets s)" "''D''" s] Raise by simp
  then show ?thesis by (intro exI[of _ 0]) (simp add: train_batch_def Raise)
qed

lemma concat_singletons: "concat (map (\<lambda>b. [x]) ys) = replicate (length ys) x"
  by (induction ys) simp_all

lemma marks_train_pass:
  "\<exists>k\<le>length trl.
     marks (trace (state_of (train_pass T e n trl s))) = marks (trace s) @ replicate k (Trained e)
     \<and> (is_Continue (train_pass T e n trl s) \<longrightarrow> k = length trl)"
proof -
  let ?s0 = "s\<lparr>nets := trainD T (trainG T (nets s)), cache := new_cache\<rparr>"
  have "\<exists>k\<le>length (concat (map (\<lambda>b. [Trained e]) trl)).
     marks (trace (state_of (for_each (train_batch T e n) trl ?s0)))
       = marks (trace ?s0) @ take k (concat (map (\<lambda>b. [Trained e]) trl))
     \<and> (is_Continue (for_each (train_batch T e n) trl ?s0)
          \<longrightarrow> k = length (concat (map (\<lambda>b. [Trained e]) trl)))"
    by (rule for_each_take[where proj = "\<lambda>s. marks (trace s)"]) (rule marks_train_batch)
  then obtain k where k: "k \<le> length trl"
    "marks (trace (state_of (train_pass T e n trl s)))
       = marks (trace s) @ take k (replicate (length trl) (Trained e))"
    "is_Continue (train_pass T e n trl s) \<longrightarrow> k = length trl"
    unfolding concat_singletons train_pass_def by auto
  then show ?thesis by (intro exI[of _ k]) (simp add: min_def)
qed

lemma marks_log_losses: "marks (trace (state_of (log_losses n e s))) = marks (trace s)"
proof (cases "n = 0")
  case True
  then show ?thesis by (simp add: log_losses_zero)
next
  case False
  then have "0 < n" by simp
  then show ?thesis by (simp add: log_losses_positive)
qed

lemma marks_epoch_end:
  "marks (trace (state_of (visualize_results T dvl e (save_model_parameters T e s))))
     = marks (trace s)"
proof -
  from adds_epoch_end[of s T dvl e] obtain evs where
    "trace (state_of (visualize_results T dvl e (save_model_parameters T e s))) = trace s @ evs"
    "list_all epoch_end_event evs"
    unfolding adds_def by blast
  then show ?thesis by (simp add: epoch_end_marks)
qed

lemma marks_adversarial_epoch:
  "\<exists>k\<le>length (replicate (length trl) (Trained e)).
     marks (trace (state_of (adversarial_epoch T n trl dvl e s)))
       = marks (trace s) @ take k (replicate (length trl) (Trained e))
     \<and> (is_Continue (adversarial_epoch T n trl dvl e s)
          \<longrightarrow> k = length (replicate (length trl) (Trained e)))"
proof -
  from marks_train_pass[of trl T e n s] obtain k where k: "k \<le> length trl"
    "marks (trace (state_of (train_pass T e n trl s))) = marks (trace s) @ replicate k (Trained e)"
    "is_Continue (train_pass T e n trl s) \<longrightarrow> k = length trl" by blast
  have m: "marks (trace (state_of (adversarial_epoch T n trl dvl e s)))
        = marks (trace s) @ replicate k (Trained e)"
    unfolding adversarial_epoch_def
    by (rule then_do_keeps[where proj = "\<lambda>s. marks (trace s)"], rule k(2))
       (rule then_do_keeps[where proj = "\<lambda>s. marks (trace s)"],
        rule marks_log_losses, rule marks_epoch_end)
  have c: "is_Continue (adversarial_epoch T n trl dvl e s) \<longrightarrow> k = length trl"
    using k(3) by (cases "train_pass T e n trl s") (simp_all add: adversarial_epoch_def)
  from k(1) m c show ?thesis by (intro exI[of _ k]) (simp add: min_def)
qed

lemma marks_epochs:
  "\<exists>k\<le>length (epoch_marks (length trl) es).
     marks (trace (state_of (for_each (adversarial_epoch T n trl dvl) es s)))
       = marks (trace s) @ take k (epoch_marks (length trl) es)
     \<and> (is_Continue (for_each (adversarial_epoch T n trl dvl) es s)
          \<longrightarrow> k = length (epoch_marks (length trl) es))"
  unfolding epoch_marks_def
  by (rule for_each_take[where proj = "\<lambda>s. marks (trace s)"]) (rule marks_adversarial_epoch)

subsection \<open>The steps of pretraining and of loading\<close>

lemma marks_pretrain_batch:
  "is_Continue (pretrain_batch T e b s)
   \<and> marks (trace (state_of (pretrain_batch T e b s))) = marks (trace s) @ [Pretrained e]"
  by (simp add: pretrain_batch_def Let_def split: prod.splits)

lemma marks_pretrain_epoch:
  "is_Continue (pretrain_epoch T trl e s)
   \<and> marks (trace (state_of (pretrain_epoch T trl e s)))
       = marks (trace s) @ replicate (length trl) (Pretrained e)"
proof -
  let ?s0 = "s\<lparr>nets := trainG T (nets s)\<rparr>"
  have "is_Continue (for_each (pretrain_batch T e) trl ?s0)
        \<and> marks (trace (state_of (for_each (pretrain_batch T e) trl ?s0)))
            = marks (trace ?s0) @ concat (map (\<lambda>x. [Pretrained e]) trl)"
    by (rule for_each_appends[where proj = "\<lambda>s. marks (trace s)"]) (rule marks_pretrain_batch)
  then obtain s1 where l: "for_each (pretrain_batch T e) trl ?s0 = Continue s1"
      and p: "marks (trace s1) = marks (trace s) @ replicate (length trl) (Pretrained e)"
    by (cases "for_each (pretrain_batch T e) trl ?s0") (auto simp: map_replicate_const)
  show ?thesis by (simp add: pretrain_epoch_def l p torch_save_def)
qed

lemma marks_pretrain:
  "is_Continue (pretrain T trl s)
   \<and> marks (trace (state_of (pretrain T trl s))) = marks (trace s) @ pretrain_marks (length trl)"
proof -
  let ?s0 = "s\<lparr>nets := adamG T (nets s)\<rparr>"
  have r: "py_range 1 (n_epoch_pretrain + 1) = [1, 2, 3, 4, 5]"
    by (simp add: py_range_def n_epoch_pretrain_def upto.simps)
  have "is_Continue (for_each (pretrain_epoch T trl) [1, 2, 3, 4, 5] ?s0)
        \<and> marks (trace (state_of (for_each (pretrain_epoch T trl) [1, 2, 3, 4, 5] ?s0)))
            = marks (trace ?s0)
              @ concat (map (\<lambda>e. replicate (length trl) (Pretrained e)) [1, 2, 3, 4, 5])"
    by (rule for_each_appends[where proj = "\<lambda>s. marks (trace s)"])
       (rule marks_pretrain_epoch)
  then show ?thesis by (simp add: pretrain_def r pretrain_marks_def)
qed

lemma then_do_Continue_right [simp]: "then_do r Continue = r"
  by (cases r) simp_all

lemma for_each_Nil_fun: "for_each body [] = Continue"
  by (rule ext) simp

lemma for_each_Cons_fun:
  "for_each body (x # xs) = (\<lambda>s. then_do (body x s) (for_each body xs))"
  by (rule ext) simp

lemma load_checkpoint_for_each:
  "load_checkpoint T cp s
     = for_each (\<lambda>c. torch_load T c (checkpoint_path T c cp)) load_components s"
  by (cases "cuda_is_available T")
     (simp_all add: load_checkpoint_def load_components_def checkpoint_path_def device_tag_def
        for_each_Nil_fun for_each_Cons_fun)

lemma loads_for_each:
  fixes T :: "'m torch"
  shows "\<exists>j\<le>length cs.
     marks (trace (state_of (for_each (\<lambda>c. torch_load T c (path c)) cs s)))
       = marks (trace s) @ map Loaded (take j (map path cs))
     \<and> set (take j (map path cs)) \<subseteq> files s
     \<and> (j < length cs \<longrightarrow> path (cs ! j) \<notin> files s
          \<and> (\<exists>s'. for_each (\<lambda>c. torch_load T c (path c)) cs s
                    = Raise (FileNotFoundError (path (cs ! j))) s'))
     \<and> (j = length cs \<longrightarrow> (\<exists>s'. for_each (\<lambda>c. torch_load T c (path c)) cs s = Continue s'
          \<and> files s' = files s))"
proof (induction cs arbitrary: s)
  case Nil
  then show ?case by simp
next
  case (Cons c cs)
  show ?case
  proof (cases "path c \<in> files s")
    case True
    define s1 where "s1 = emit [TorchLoad (path c)] (s\<lparr>nets := load_state_dict T c (path c) (nets s)\<rparr>)"
    have l: "torch_load T c (path c) s = Continue s1"
      using True by (simp add: torch_load_def s1_def)
    have f1: "files s1 = files s" and m1: "marks (trace s1) = marks (trace s) @ [Loaded (path c)]"
      by (simp_all add: s1_def emit_def)
    from Cons[of s1] obtain j where j: "j \<le> length cs"
      "marks (trace (state_of (for_each (\<lambda>c. torch_load T c (path c)) cs s1)))
         = marks (trace s1) @ map Loaded (take j (map path cs))"
      "set (take j (map path cs)) \<subseteq> files s1"
      "j < length cs \<longrightarrow> path (cs ! j) \<notin> files s1
          \<and> (\<exists>s'. for_each (\<lambda>c. torch_load T c (path c)) cs s1
                    = Raise (FileNotFoundError (path (cs ! j))) s')"
      "j = length cs \<longrightarrow> (\<exists>s'. for_each (\<lambda>c. torch_load T c (path c)) cs s1 = Continue s'
          \<and> files s' = files s1)"
      by blast
    show ?thesis
      by (rule exI[of _ "Suc j"]) (use j True in \<open>simp add: l f1 m1\<close>)
  next
    case False
    then show ?thesis by (intro exI[of _ 0]) (simp add: torch_load_def)
  qed
qed

lemma length_load_paths [simp]: "length (load_paths T cp) = 4"
  by (simp add: load_paths_def load_components_def)

lemma marks_load_checkpoint:
  "\<exists>j\<le>4.
     marks (trace (state_of (load_checkpoint T cp s)))
       = marks (trace s) @ map Loaded (take j (load_paths T cp))
     \<and> set (take j (load_paths T cp)) \<subseteq> files s
     \<and> (j < 4 \<longrightarrow> load_paths T cp ! j \<notin> files s
          \<and> (\<exists>s'. load_checkpoint T cp s = Raise (FileNotFoundError (load_paths T cp ! j)) s'))
     \<and> (j = 4 \<longrightarrow> (\<exists>s'. load_checkpoint T cp s = Continue s'))"
proof -
  from loads_for_each[of load_components T "\<lambda>c. checkpoint_path T c cp" s]
  obtain j where j: "j \<le> length load_components"
    "marks (trace (state_of (load_checkpoint T cp s)))
       = marks (trace s) @ map Loaded (take j (load_paths T cp))"
    "set (take j (load_paths T cp)) \<subseteq> files s"
    "j < length load_components \<longrightarrow> checkpoint_path T (load_components ! j) cp \<notin> files s
       \<and> (\<exists>s'. load_checkpoint T cp s
                 = Raise (FileNotFoundError (checkpoint_path T (load_components ! j) cp)) s')"
    "j = length load_components \<longrightarrow> (\<exists>s'. load_checkpoint T cp s = Continue s' \<and> files s' = files s)"
    unfolding load_checkpoint_for_each load_paths_def by blast
  have len: "length load_components = 4" by (simp add: load_components_def)
  have nth: "j < 4 \<Longrightarrow> load_paths T cp ! j = checkpoint_path T (load_components ! j) cp"
    by (simp add: load_paths_def len)
  from j show ?thesis unfolding len by (intro exI[of _ j]) (auto simp: nth)
qed

section \<open>The properties claimed of the run\<close>

lemma mse_item_same:
  "hr \<noteq> [] \<Longrightarrow> mse_item hr hr = Inr (Fin 0)"
proof -
  assume ne: "hr \<noteq> []"
  have z: "map (\<lambda>(a, b). (a - b) ^ 2) (zip hr hr) = replicate (length hr) (0::real)"
    by (induction hr) auto
  have "sum_list (replicate (length hr) (0::real)) = 0" by (induction hr) auto
  then show ?thesis using ne by (simp add: mse_item_def z)
qed

lemma validation_psnr_identical:
  "hr \<noteq> [] \<Longrightarrow> validation_psnr hr hr = Inl ZeroDivisionError"
  by (simp add: validation_psnr_def mse_item_same)

text \<open>
  Claim C2. For a generated image equal to the ground truth the mean squared error is 0 and
  line 268 divides by it: the computation raises \<^verbatim>\<open>ZeroDivisionError\<close> instead of
  yielding a value for the PSNR. The source has no guard for this case.
\<close>

theorem validation_psnr_identical_images_raises:
  "validation_psnr [1 / 2, 1 / 4, 1] [1 / 2, 1 / 4, 1] = Inl ZeroDivisionError"
  by (simp add: validation_psnr_def mse_item_def)

lemma main_fresh:
  "check_point opt = - 1 \<Longrightarrow>
   main T opt trl dvl s =
     then_do (pretrain T trl s) (\<lambda>s.
       for_each (adversarial_epoch T (num_epochs opt) trl dvl) (epoch_range (- 1) (num_epochs opt))
         (s\<lparr>nets := adamD T (adamG T (nets s))\<rparr>))"
  by (simp add: main_def Let_def)

lemma main_resume:
  "check_point opt \<noteq> - 1 \<Longrightarrow>
   main T opt trl dvl s =
     then_do (load_checkpoint T (check_point opt) (s\<lparr>nets := adamD T (adamG T (nets s))\<rparr>))
       (for_each (adversarial_epoch T (num_epochs opt) trl dvl)
          (epoch_range (check_point opt) (num_epochs opt)))"
  by (simp add: main_def Let_def)

lemma epoch_range_negative: "cp < 0 \<Longrightarrow> epoch_range cp n = [1..n]"
  by (simp add: epoch_range_def py_range_def max_def)

lemma epoch_range_resume: "0 \<le> E \<Longrightarrow> epoch_range E N = [E + 1..E + N]"
  by (simp add: epoch_range_def py_range_def max_def add.commute)

lemma main_marks_fresh:
  assumes "check_point opt = - 1"
  shows "\<exists>k\<le>length (epoch_marks (length trl) (epoch_range (check_point opt) (num_epochs opt))).
     marks (trace (state_of (main T opt trl dvl s)))
       = marks (trace s) @ pretrain_marks (length trl)
         @ take k (epoch_marks (length trl) (epoch_range (check_point opt) (num_epochs opt)))
     \<and> (is_Continue (main T opt trl dvl s)
          \<longrightarrow> k = length (epoch_marks (length trl) (epoch_range (check_point opt) (num_epochs opt))))"
proof -
  from marks_pretrain[of T trl s] obtain s1 where
    p: "pretrain T trl s = Continue s1"
    and m: "marks (trace s1) = marks (trace s) @ pretrain_marks (length trl)"
    by (cases "pretrain T trl s") auto
  let ?s2 = "s1\<lparr>nets := adamD T (adamG T (nets s1))\<rparr>"
  have r: "main T opt trl dvl s
      = for_each (adversarial_epoch T (num_epochs opt) trl dvl)
          (epoch_range (check_point opt) (num_epochs opt)) ?s2"
    by (simp add: main_fresh[OF assms] p assms)
  from marks_epochs[of trl "epoch_range (check_point opt) (num_epochs opt)" T "num_epochs opt" dvl ?s2]
  show ?thesis unfolding r by (simp add: m)
qed

lemma main_marks_resume:
  assumes "check_point opt \<noteq> - 1"
  shows "\<exists>j\<le>4. \<exists>k\<le>length (epoch_marks (length trl) (epoch_range (check_point opt) (num_epochs opt))).
     marks (trace (state_of (main T opt trl dvl s)))
       = marks (trace s) @ map Loaded (take j (load_paths T (check_point opt)))
         @ take k (epoch_marks (length trl) (epoch_range (check_point opt) (num_epochs opt)))
     \<and> set (take j (load_paths T (check_point opt))) \<subseteq> files s
     \<and> (j < 4 \<longrightarrow> k = 0 \<and> load_paths T (check_point opt) ! j \<notin> files s
          \<and> (\<exists>s'. main T opt trl dvl s
                    = Raise (FileNotFoundError (load_paths T (check_point opt) ! j)) s'))
     \<and> (is_Continue (main T opt trl dvl s)
          \<longrightarrow> k = length (epoch_marks (length trl) (epoch_range (check_point opt) (num_epochs opt))))"
proof -
  let ?s0 = "s\<lparr>nets := adamD T (adamG T (nets s))\<rparr>"
  let ?cp = "check_point opt"
  let ?es = "epoch_marks (length trl) (epoch_range (check_point opt) (num_epochs opt))"
  from marks_load_checkpoint[of T ?cp ?s0] obtain j where j: "j \<le> 4"
    "marks (trace (state_of (load_checkpoint T ?cp ?s0)))
       = marks (trace s) @ map Loaded (take j (load_paths T ?cp))"
    "set (take j (load_paths T ?cp)) \<subseteq> files s"
    "j < 4 \<longrightarrow> load_paths T ?cp ! j \<notin> files s
          \<and> (\<exists>s'. load_checkpoint T ?cp ?s0 = Raise (FileNotFoundError (load_paths T ?cp ! j)) s')"
    "j = 4 \<longrightarrow> (\<exists>s'. load_checkpoint T ?cp ?s0 = Continue s')"
    by auto
  show ?thesis
  proof (cases "j < 4")
    case True
    with j(4) obtain s' where s': "load_paths T ?cp ! j \<notin> files s"
      "load_checkpoint T ?cp ?s0 = Raise (FileNotFoundError (load_paths T ?cp ! j)) s'" by blast
    have r: "main T opt trl dvl s = Raise (FileNotFoundError (load_paths T ?cp ! j)) s'"
      by (simp add: main_resume[OF assms] s'(2))
    have m: "marks (trace s') = marks (trace s) @ map Loaded (take j (load_paths T ?cp))"
      using j(2) s'(2) by simp
    show ?thesis
      by (rule exI[of _ j], rule conjI[OF j(1)], rule exI[of _ 0])
         (use j(3) s'(1) in \<open>simp add: r m\<close>)
  next
    case False
    with j(1) have j4: "j = 4" by simp
    with j(5) obtain s1 where s1: "load_checkpoint T ?cp ?s0 = Continue s1" by blast
    have m: "marks (trace s1) = marks (trace s) @ map Loaded (take j (load_paths T ?cp))"
      using j(2) s1 by simp
    have r: "main T opt trl dvl s
      = for_each (adversarial_epoch T (num_epochs opt) trl dvl)
          (epoch_range (check_point opt) (num_epochs opt)) s1"
      by (simp add: main_resume[OF assms] s1)
    from marks_epochs[of trl "epoch_range (check_point opt) (num_epochs opt)" T "num_epochs opt" dvl s1]
    obtain k where k: "k \<le> length ?es"
      "marks (trace (state_of (main T opt trl dvl s))) = marks (trace s1) @ take k ?es"
      "is_Continue (main T opt trl dvl s) \<longrightarrow> k = length ?es"
      unfolding r by blast
    show ?thesis
      by (rule exI[of _ j], rule conjI[OF j(1)], rule exI[of _ k])
         (use k j(3) j4 in \<open>simp add: m\<close>)
  qed
qed

lemma nth_in_take: "i < j \<Longrightarrow> j \<le> length xs \<Longrightarrow> xs ! i \<in> set (take j xs)"
  by (auto simp: in_set_conv_nth intro!: exI[of _ i])

lemma bar_epochs_marks:
  "bar_epochs evs = concat (map (\<lambda>m. case m of Trained e \<Rightarrow> [e] | _ \<Rightarrow> []) (marks evs))"
  by (induction evs rule: marks.induct) simp_all

lemma trained_pretrain_marks:
  "concat (map (\<lambda>m. case m of Trained e \<Rightarrow> [e] | _ \<Rightarrow> []) (pretrain_marks n)) = []"
  by (simp add: pretrain_marks_def)

lemma trained_Loaded:
  "concat (map (\<lambda>m. case m of Trained e \<Rightarrow> [e] | _ \<Rightarrow> []) (map Loaded ps)) = []"
  by (induction ps) simp_all

lemma epoch_marks_map: "epoch_marks n es = map Trained (concat (map (replicate n) es))"
  by (simp add: epoch_marks_def map_concat comp_def)

lemma trained_map_Trained:
  "concat (map (\<lambda>m. case m of Trained e \<Rightarrow> [e] | _ \<Rightarrow> []) (map Trained xs)) = xs"
  by (induction xs) simp_all

lemma trained_take_epoch_marks:
  "concat (map (\<lambda>m. case m of Trained e \<Rightarrow> [e] | _ \<Rightarrow> []) (take k (epoch_marks n es)))
     = take k (concat (map (replicate n) es))"
  by (simp only: epoch_marks_map take_map trained_map_Trained)

lemma main_bar_epochs:
  "\<exists>k. bar_epochs (trace (state_of (main T opt trl dvl s)))
          = bar_epochs (trace s)
            @ take k (concat (map (replicate (length trl))
                       (epoch_range (check_point opt) (num_epochs opt))))
      \<and> (is_Continue (main T opt trl dvl s) \<longrightarrow>
           bar_epochs (trace (state_of (main T opt trl dvl s)))
             = bar_epochs (trace s)
               @ concat (map (replicate (length trl))
                   (epoch_range (check_point opt) (num_epochs opt))))"
proof -
  let ?es = "epoch_marks (length trl) (epoch_range (check_point opt) (num_epochs opt))"
  let ?full = "concat (map (replicate (length trl)) (epoch_range (check_point opt) (num_epochs opt)))"
  have "\<exists>pro k. marks (trace (state_of (main T opt trl dvl s)))
           = marks (trace s) @ pro @ take k ?es
         \<and> concat (map (\<lambda>m. case m of Trained e \<Rightarrow> [e] | _ \<Rightarrow> []) pro) = []
         \<and> (is_Continue (main T opt trl dvl s) \<longrightarrow> k = length ?es)"
  proof (cases "check_point opt = - 1")
    case True
    from main_marks_fresh[OF True, of trl T dvl s] show ?thesis
      using trained_pretrain_marks by blast
  next
    case False
    from main_marks_resume[OF False, of trl T dvl s] show ?thesis
      using trained_Loaded by blast
  qed
  then obtain pro k where pk:
    "marks (trace (state_of (main T opt trl dvl s))) = marks (trace s) @ pro @ take k ?es"
    "concat (map (\<lambda>m. case m of Trained e \<Rightarrow> [e] | _ \<Rightarrow> []) pro) = []"
    "is_Continue (main T opt trl dvl s) \<longrightarrow> k = length ?es" by blast
  have b: "bar_epochs (trace (state_of (main T opt trl dvl s)))
             = bar_epochs (trace s) @ take k ?full"
    by (simp add: bar_epochs_marks[of "trace (state_of (main T opt trl dvl s))"] pk(1) pk(2)
          trained_take_epoch_marks bar_epochs_marks[of "trace s", symmetric])
  have l: "length ?es = length ?full" by (simp add: epoch_marks_map)
  from b pk(3) l show ?thesis by (intro exI[of _ k]) simp
qed

text \<open>
  Claim C3. The progress bar of every adversarial batch shows the epoch the batch belongs to.
  In a run resumed from checkpoint \<open>E \<ge> 0\<close> with \<open>N \<ge> 1\<close> epochs, the range of line 155 is
  \<open>E + 1, \<dots>, E + N\<close> and the epochs of the batches trained by the run are, in order, an
  initial part of \<open>E + 1\<close> (once for every batch of the loader), \<open>E + 2\<close>, and so on up to
  \<open>E + N\<close>; they are all of it when the run completes. On a fresh start (check_point = -1)
  the same holds with \<open>1, \<dots>, N\<close>.
\<close>

theorem epoch_loop_range:
  "(0 \<le> E \<and> 1 \<le> N \<longrightarrow>
      epoch_range E N = [E + 1..E + N]
      \<and> (\<exists>k. bar_epochs (trace (state_of (main T \<lparr>num_epochs = N, check_point = E\<rparr> trl dvl s)))
                = bar_epochs (trace s)
                  @ take k (concat (map (replicate (length trl)) [E + 1..E + N])))
      \<and> (is_Continue (main T \<lparr>num_epochs = N, check_point = E\<rparr> trl dvl s) \<longrightarrow>
            bar_epochs (trace (state_of (main T \<lparr>num_epochs = N, check_point = E\<rparr> trl dvl s)))
              = bar_epochs (trace s) @ concat (map (replicate (length trl)) [E + 1..E + N])))
   \<and> epoch_range (- 1) N = [1..N]
   \<and> (\<exists>k. bar_epochs (trace (state_of (main T \<lparr>num_epochs = N, check_point = - 1\<rparr> trl dvl s)))
             = bar_epochs (trace s) @ take k (concat (map (replicate (length trl)) [1..N])))
   \<and> (is_Continue (main T \<lparr>num_epochs = N, check_point = - 1\<rparr> trl dvl s) \<longrightarrow>
         bar_epochs (trace (state_of (main T \<lparr>num_epochs = N, check_point = - 1\<rparr> trl dvl s)))
           = bar_epochs (trace s) @ concat (map (replicate (length trl)) [1..N]))"
proof -
  have a: "0 \<le> E \<Longrightarrow> epoch_range E N = [E + 1..E + N]" by (rule epoch_range_resume)
  have b: "epoch_range (- 1) N = [1..N]" by (simp add: epoch_range_negative)
  from main_bar_epochs[of T "\<lparr>num_epochs = N, check_point = E\<rparr>" trl dvl s]
  have c: "0 \<le> E \<Longrightarrow>
    (\<exists>k. bar_epochs (trace (state_of (main T \<lparr>num_epochs = N, check_point = E\<rparr> trl dvl s)))
                = bar_epochs (trace s)
                  @ take k (concat (map (replicate (length trl)) [E + 1..E + N])))
      \<and> (is_Continue (main T \<lparr>num_epochs = N, check_point = E\<rparr> trl dvl s) \<longrightarrow>
            bar_epochs (trace (state_of (main T \<lparr>num_epochs = N, check_point = E\<rparr> trl dvl s)))
              = bar_epochs (trace s) @ concat (map (replicate (length trl)) [E + 1..E + N]))"
    by (auto simp: a)
  from main_bar_epochs[of T "\<lparr>num_epochs = N, check_point = - 1\<rparr>" trl dvl s]
  have d: "(\<exists>k. bar_epochs (trace (state_of (main T \<lparr>num_epochs = N, check_point = - 1\<rparr> trl dvl s)))
             = bar_epochs (trace s) @ take k (concat (map (replicate (length trl)) [1..N])))
   \<and> (is_Continue (main T \<lparr>num_epochs = N, check_point = - 1\<rparr> trl dvl s) \<longrightarrow>
         bar_epochs (trace (state_of (main T \<lparr>num_epochs = N, check_point = - 1\<rparr> trl dvl s)))
           = bar_epochs (trace s) @ concat (map (replicate (length trl)) [1..N]))"
    by (auto simp: b)
  from a b c d show ?thesis by blast
qed

text \<open>
  Claim C10, amended. Only check_point = -1 takes the fresh-start path: the run pretrains
  (every batch of the loader in each of the five pretraining epochs) and then trains, and
  loads nothing. Every other value skips pretraining and loads the four checkpoint files in
  the order of lines 145-148. When all four are among the files, they are loaded and the
  epochs are trained after them. Otherwise the run loads the files before the first absent
  one and stops there, raising the file-access error for the absent file before any epoch.
  For a value below -1 the names of the four files carry the minus sign, and the range of
  the epoch loop is \<open>1, \<dots>, N\<close>.
\<close>

theorem check_point_selects_start:
  "(check_point opt = - 1 \<longrightarrow>
      (\<exists>k. marks (trace (state_of (main T opt trl dvl s)))
            = marks (trace s) @ pretrain_marks (length trl)
              @ take k (epoch_marks (length trl) (epoch_range (- 1) (num_epochs opt)))))
   \<and> (check_point opt \<noteq> - 1 \<and> set (load_paths T (check_point opt)) \<subseteq> files s \<longrightarrow>
      (\<exists>k. marks (trace (state_of (main T opt trl dvl s)))
            = marks (trace s) @ map Loaded (load_paths T (check_point opt))
              @ take k (epoch_marks (length trl)
                         (epoch_range (check_point opt) (num_epochs opt)))))
   \<and> (\<forall>j<4. check_point opt \<noteq> - 1
         \<and> set (take j (load_paths T (check_point opt))) \<subseteq> files s
         \<and> load_paths T (check_point opt) ! j \<notin> files s \<longrightarrow>
      marks (trace (state_of (main T opt trl dvl s)))
        = marks (trace s) @ map Loaded (take j (load_paths T (check_point opt)))
      \<and> (\<exists>s'. main T opt trl dvl s
                = Raise (FileNotFoundError (load_paths T (check_point opt) ! j)) s'))
   \<and> (check_point opt < - 1 \<longrightarrow>
      load_paths T (check_point opt)
        = map (\<lambda>component. ''cp/'' @ component @ ''_epoch_-''
                 @ str_nat (nat (- check_point opt)) @ ''_'' @ device_tag T @ ''.pth'')
            load_components
      \<and> epoch_range (check_point opt) (num_epochs opt) = [1..num_epochs opt])"
proof (intro conjI impI allI)
  assume f: "check_point opt = - 1"
  from main_marks_fresh[OF f, of trl T dvl s]
  show "\<exists>k. marks (trace (state_of (main T opt trl dvl s)))
            = marks (trace s) @ pretrain_marks (length trl)
              @ take k (epoch_marks (length trl) (epoch_range (- 1) (num_epochs opt)))"
    unfolding f by blast
next
  assume a: "check_point opt \<noteq> - 1 \<and> set (load_paths T (check_point opt)) \<subseteq> files s"
  then have ne: "check_point opt \<noteq> - 1" by simp
  from main_marks_resume[OF ne, of trl T dvl s] obtain j k where jk: "j \<le> 4"
    "marks (trace (state_of (main T opt trl dvl s)))
       = marks (trace s) @ map Loaded (take j (load_paths T (check_point opt)))
         @ take k (epoch_marks (length trl) (epoch_range (check_point opt) (num_epochs opt)))"
    "j < 4 \<longrightarrow> load_paths T (check_point opt) ! j \<notin> files s"
    by blast
  have "\<not> j < 4"
  proof
    assume l: "j < 4"
    then have "load_paths T (check_point opt) ! j \<in> set (load_paths T (check_point opt))"
      by simp
    with a jk(3) l show False by blast
  qed
  with jk(1) have "j = 4" by simp
  with jk(2) show "\<exists>k. marks (trace (state_of (main T opt trl dvl s)))
            = marks (trace s) @ map Loaded (load_paths T (check_point opt))
              @ take k (epoch_marks (length trl)
                         (epoch_range (check_point opt) (num_epochs opt)))"
    by auto
next
  fix j :: nat
  assume j4: "j < 4"
  assume a: "check_point opt \<noteq> - 1
         \<and> set (take j (load_paths T (check_point opt))) \<subseteq> files s
         \<and> load_paths T (check_point opt) ! j \<notin> files s"
  then have ne: "check_point opt \<noteq> - 1" by simp
  from main_marks_resume[OF ne, of trl T dvl s] obtain i k where ik: "i \<le> 4"
    "marks (trace (state_of (main T opt trl dvl s)))
       = marks (trace s) @ map Loaded (take i (load_paths T (check_point opt)))
         @ take k (epoch_marks (length trl) (epoch_range (check_point opt) (num_epochs opt)))"
    "set (take i (load_paths T (check_point opt))) \<subseteq> files s"
    "i < 4 \<longrightarrow> k = 0 \<and> load_paths T (check_point opt) ! i \<notin> files s
          \<and> (\<exists>s'. main T opt trl dvl s
                    = Raise (FileNotFoundError (load_paths T (check_point opt) ! i)) s')"
    by blast
  have "\<not> i < j"
  proof
    assume l: "i < j"
    with j4 have "load_paths T (check_point opt) ! i
                    \<in> set (take j (load_paths T (check_point opt)))"
      by (intro nth_in_take) simp_all
    with a ik(4) l j4 show False by auto
  qed
  moreover have "\<not> j < i"
  proof
    assume l: "j < i"
    with ik(1) have "load_paths T (check_point opt) ! j
                    \<in> set (take i (load_paths T (check_point opt)))"
      by (intro nth_in_take) simp_all
    with a ik(3) show False by auto
  qed
  ultimately have e: "i = j" by simp
  from ik(2) ik(4) j4 show "marks (trace (state_of (main T opt trl dvl s)))
        = marks (trace s) @ map Loaded (take j (load_paths T (check_point opt)))"
    unfolding e by simp
  from ik(4) j4 show "\<exists>s'. main T opt trl dvl s
                = Raise (FileNotFoundError (load_paths T (check_point opt) ! j)) s'"
    unfolding e by simp
next
  assume "check_point opt < - 1"
  then show "load_paths T (check_point opt)
        = map (\<lambda>component. ''cp/'' @ component @ ''_epoch_-''
                 @ str_nat (nat (- check_point opt)) @ ''_'' @ device_tag T @ ''.pth'')
            load_components"
    by (simp add: load_paths_def checkpoint_path_def str_int_negative)
next
  assume "check_point opt < - 1"
  then show "epoch_range (check_point opt) (num_epochs opt) = [1..num_epochs opt]"
    by (simp add: epoch_range_negative)
qed

text \<open>
  Claim C4. In every run the files written with \<^verbatim>\<open>torch.save\<close> are the pretraining
  checkpoints (on a fresh start) followed, for the epochs that reached their end in order, by
  the generator file of the epoch and, exactly when the epoch is divisible by 5, the
  discriminator and the two optimizer files. A run that completes has done so for every
  epoch of its range.
\<close>

theorem checkpoint_schedule:
  "\<exists>k\<le>length (epoch_range (check_point opt) (num_epochs opt)).
     saved_paths (trace (state_of (main T opt trl dvl s)))
       = saved_paths (trace s)
         @ (if check_point opt = - 1 then replicate 5 (pretrain_checkpoint T) else [])
         @ concat (map (epoch_checkpoints T)
             (take k (epoch_range (check_point opt) (num_epochs opt))))
     \<and> (is_Continue (main T opt trl dvl s)
          \<longrightarrow> k = length (epoch_range (check_point opt) (num_epochs opt)))"
  by (rule main_saves)

section \<open>Runs of the concrete instance\<close>

lemmas run_defs =
  main_def pretrain_def py_range_def n_epoch_pretrain_def upto.simps pretrain_epoch_def
  pretrain_batch_def emit_def torch_save_def torch_load_def load_checkpoint_def epoch_range_def
  adversarial_epoch_def train_pass_def train_batch_def guard_grads_def check_grads_def
  np_any_def np_mean_def np_max_def is_nan_def train_D_def train_G_def new_cache_def
  log_losses_def use_tensorboard_def log_value_def save_model_parameters_def
  visualize_results_def dev_loop_def dev_step_def validation_psnr_def mse_item_def
  save_images_def torch_stack_def torch_chunk_def log_validation_def
  str_int_def str_nat.simps digit_char_def Let_def
  example_torch_def example_torch_G_def example_state_def example_batch_def example_sample_def

lemma example_resume_completes:
  "is_Continue (main example_torch \<lparr>num_epochs = 2, check_point = 4\<rparr> [example_batch]
      [example_sample]
      (example_state\<lparr>files := {''cp/netG_epoch_4_cpu.pth'', ''cp/netD_epoch_4_cpu.pth'',
         ''cp/optimizerG_epoch_4_cpu.pth'', ''cp/optimizerD_epoch_4_cpu.pth''}\<rparr>))"
  by (simp add: run_defs)

theorem checkpoint_schedule_witness:
  "is_Continue (main example_torch \<lparr>num_epochs = 2, check_point = 4\<rparr> [example_batch]
      [example_sample]
      (example_state\<lparr>files := {''cp/netG_epoch_4_cpu.pth'', ''cp/netD_epoch_4_cpu.pth'',
         ''cp/optimizerG_epoch_4_cpu.pth'', ''cp/optimizerD_epoch_4_cpu.pth''}\<rparr>))
   \<and> saved_paths (trace (state_of (main example_torch \<lparr>num_epochs = 2, check_point = 4\<rparr>
      [example_batch] [example_sample]
      (example_state\<lparr>files := {''cp/netG_epoch_4_cpu.pth'', ''cp/netD_epoch_4_cpu.pth'',
         ''cp/optimizerG_epoch_4_cpu.pth'', ''cp/optimizerD_epoch_4_cpu.pth''}\<rparr>))))
     = [''cp/netG_epoch_5_cpu.pth'', ''cp/netD_epoch_5_cpu.pth'',
        ''cp/optimizerG_epoch_5_cpu.pth'', ''cp/optimizerD_epoch_5_cpu.pth'',
        ''cp/netG_epoch_6_cpu.pth'']"
proof -
  let ?opt = "\<lparr>num_epochs = 2, check_point = 4\<rparr>"
  let ?s = "example_state\<lparr>files := {''cp/netG_epoch_4_cpu.pth'', ''cp/netD_epoch_4_cpu.pth'',
         ''cp/optimizerG_epoch_4_cpu.pth'', ''cp/optimizerD_epoch_4_cpu.pth''}\<rparr>"
  let ?r = "main example_torch ?opt [example_batch] [example_sample] ?s"
  have c: "is_Continue ?r" by (rule example_resume_completes)
  have r: "epoch_range 4 2 = [5, 6]" by (simp add: epoch_range_def py_range_def upto.simps)
  from checkpoint_schedule[of ?opt example_torch "[example_batch]" "[example_sample]" ?s]
  obtain k where k: "saved_paths (trace (state_of ?r))
       = saved_paths (trace ?s)
         @ (if check_point ?opt = - 1 then replicate 5 (pretrain_checkpoint example_torch) else [])
         @ concat (map (epoch_checkpoints example_torch)
             (take k (epoch_range (check_point ?opt) (num_epochs ?opt))))"
     "is_Continue ?r \<longrightarrow> k = length (epoch_range (check_point ?opt) (num_epochs ?opt))"
    by blast
  from k(2) c r have "k = 2" by simp
  then have "saved_paths (trace (state_of ?r))
     = epoch_checkpoints example_torch 5 @ epoch_checkpoints example_torch 6"
    using k(1) r by (simp add: example_state_def)
  moreover have "epoch_checkpoints example_torch 5 @ epoch_checkpoints example_torch 6
     = [''cp/netG_epoch_5_cpu.pth'', ''cp/netD_epoch_5_cpu.pth'',
        ''cp/optimizerG_epoch_5_cpu.pth'', ''cp/optimizerD_epoch_5_cpu.pth'',
        ''cp/netG_epoch_6_cpu.pth'']"
    by (simp add: epoch_checkpoints_def checkpoint_path_def device_tag_def example_torch_def
          str_int_def str_nat.simps digit_char_def)
  ultimately have "saved_paths (trace (state_of ?r))
     = [''cp/netG_epoch_5_cpu.pth'', ''cp/netD_epoch_5_cpu.pth'',
        ''cp/optimizerG_epoch_5_cpu.pth'', ''cp/optimizerD_epoch_5_cpu.pth'',
        ''cp/netG_epoch_6_cpu.pth'']"
    by (rule trans)
  with c show ?thesis by blast
qed

lemma for_each_all_Continue:
  "(\<And>x s. x \<in> set xs \<Longrightarrow> is_Continue (body x s)) \<Longrightarrow> is_Continue (for_each body xs s)"
proof (induction xs arbitrary: s)
  case Nil then show ?case by simp
next
  case (Cons x xs)
  from Cons.prems[of x s] obtain s1 where "body x s = Continue s1"
    by (cases "body x s") auto
  then show ?case using Cons by simp
qed

lemma example_dev_step_Continue: "is_Continue (dev_step example_torch example_sample s)"
  by (simp add: dev_step_def validation_psnr_def mse_item_def Let_def
        example_torch_def example_sample_def)

lemma example_resume_two_batches:
  "is_Continue (main example_torch \<lparr>num_epochs = 2, check_point = 4\<rparr>
      [example_batch, example_batch] [example_sample]
      (example_state\<lparr>files := {''cp/netG_epoch_4_cpu.pth'', ''cp/netD_epoch_4_cpu.pth'',
         ''cp/optimizerG_epoch_4_cpu.pth'', ''cp/optimizerD_epoch_4_cpu.pth''}\<rparr>))"
  by (simp add: run_defs)

lemma example_fresh_completes:
  "is_Continue (main example_torch \<lparr>num_epochs = 1, check_point = - 1\<rparr> [example_batch]
      [example_sample] example_state)"
  by (simp add: run_defs)

theorem epoch_loop_range_witness:
  "(0::int) \<le> 4 \<and> (1::int) \<le> 2 \<and> epoch_range 4 2 = [5, 6]
   \<and> is_Continue (main example_torch \<lparr>num_epochs = 2, check_point = 4\<rparr>
        [example_batch, example_batch] [example_sample]
        (example_state\<lparr>files := {''cp/netG_epoch_4_cpu.pth'', ''cp/netD_epoch_4_cpu.pth'',
           ''cp/optimizerG_epoch_4_cpu.pth'', ''cp/optimizerD_epoch_4_cpu.pth''}\<rparr>))
   \<and> bar_epochs (trace (state_of (main example_torch \<lparr>num_epochs = 2, check_point = 4\<rparr>
        [example_batch, example_batch] [example_sample]
        (example_state\<lparr>files := {''cp/netG_epoch_4_cpu.pth'', ''cp/netD_epoch_4_cpu.pth'',
           ''cp/optimizerG_epoch_4_cpu.pth'', ''cp/optimizerD_epoch_4_cpu.pth''}\<rparr>))))
      = [5, 5, 6, 6]
   \<and> epoch_range (- 1) 1 = [1]
   \<and> is_Continue (main example_torch \<lparr>num_epochs = 1, check_point = - 1\<rparr> [example_batch]
        [example_sample] example_state)
   \<and> bar_epochs (trace (state_of (main example_torch \<lparr>num_epochs = 1, check_point = - 1\<rparr>
        [example_batch] [example_sample] example_state)))
      = [1]"
proof -
  let ?s = "example_state\<lparr>files := {''cp/netG_epoch_4_cpu.pth'', ''cp/netD_epoch_4_cpu.pth'',
         ''cp/optimizerG_epoch_4_cpu.pth'', ''cp/optimizerD_epoch_4_cpu.pth''}\<rparr>"
  let ?r = "main example_torch \<lparr>num_epochs = 2, check_point = 4\<rparr>
      [example_batch, example_batch] [example_sample] ?s"
  let ?f = "main example_torch \<lparr>num_epochs = 1, check_point = - 1\<rparr> [example_batch]
      [example_sample] example_state"
  have u: "[4 + 1..4 + 2] = [5, 6 :: int]" "[1..1] = [1 :: int]" by (simp_all add: upto.simps)
  have c: "is_Continue ?r" by (rule example_resume_two_batches)
  have d: "is_Continue ?f" by (rule example_fresh_completes)
  have h: "(0::int) \<le> 4 \<and> (1::int) \<le> 2" by simp
  have t: "bar_epochs (trace ?s) = []" "bar_epochs (trace example_state) = []"
    by (simp_all add: example_state_def)
  note w1 = epoch_loop_range[where E = 4 and N = 2 and T = example_torch
      and trl = "[example_batch, example_batch]" and dvl = "[example_sample]" and s = ?s]
  note w2 = epoch_loop_range[where E = 4 and N = 1 and T = example_torch
      and trl = "[example_batch]" and dvl = "[example_sample]" and s = example_state]
  from w1 h c have a1: "epoch_range 4 2 = [4 + 1..4 + 2]"
    and a2: "bar_epochs (trace (state_of ?r))
               = bar_epochs (trace ?s)
                 @ concat (map (replicate (length [example_batch, example_batch])) [4 + 1..4 + 2])"
    by blast+
  from w2 d have b1: "epoch_range (- 1) 1 = [1..1]"
    and b2: "bar_epochs (trace (state_of ?f))
               = bar_epochs (trace example_state)
                 @ concat (map (replicate (length [example_batch])) [1..1])"
    by blast+
  have a3: "bar_epochs (trace (state_of ?r)) = [5, 5, 6, 6]"
    unfolding a2 u t by (simp add: numeral_2_eq_2)
  have b3: "bar_epochs (trace (state_of ?f)) = [1]"
    unfolding b2 u t by simp
  from h c d a1[unfolded u] a3 b1[unfolded u] b3 show ?thesis by simp
qed

theorem visualization_cap_witness:
  "is_Continue (dev_loop example_torch (replicate 21 example_sample) example_state)
   \<and> 20 < length (replicate 21 example_sample)
   \<and> length (dev_images (state_of
        (dev_loop example_torch (replicate 21 example_sample) example_state))) = 60"
proof -
  have c: "is_Continue (dev_loop example_torch (replicate 21 example_sample) example_state)"
    unfolding dev_loop_def
    by (rule for_each_all_Continue) (simp add: example_dev_step_Continue)
  have l: "20 < length (replicate 21 example_sample)" by simp
  from visualization_cap[of example_torch "replicate 21 example_sample" example_state] c l
  show ?thesis by blast
qed

lemma example_train_pass_Continue:
  "is_Continue (train_pass example_torch 1 1 [example_batch, example_batch] example_state)"
  by (simp add: run_defs)

lemma example_epoch_recorded:
  "map (\<lambda>m. (metric_name m,
          average (recorded m (trace (state_of (adversarial_epoch example_torch 1
             [example_batch, example_batch] [example_sample] 1 example_state)))), 1 :: int))
     [D_loss, Mse_loss, Tv_loss, Adv_loss, G_loss]
   = [(''d_loss'', Fin (3 / 2), 1), (''mse_loss'', Fin 1, 1), (''tv_loss'', Fin 3, 1),
      (''adv_loss'', Fin 2, 1), (''g_loss'', Fin (1 + 8389 / 4194304), 1)]"
  by (simp add: run_defs recorded_def average_def fsum_def)

theorem epoch_metric_average_witness:
  "[example_batch, example_batch] \<noteq> []
   \<and> is_Continue (train_pass example_torch 1 1 [example_batch, example_batch] example_state)
   \<and> metric_logs (trace (state_of (adversarial_epoch example_torch 1
        [example_batch, example_batch] [example_sample] 1 example_state)))
      = [(''d_loss'', Fin (3 / 2), 1), (''mse_loss'', Fin 1, 1), (''tv_loss'', Fin 3, 1),
         (''adv_loss'', Fin 2, 1), (''g_loss'', Fin (1 + 8389 / 4194304), 1)]
   \<and> average (map Fin [1, 2]) = Fin (3 / 2)"
proof -
  let ?trl = "[example_batch, example_batch]"
  let ?r = "adversarial_epoch example_torch 1 ?trl [example_sample] 1 example_state"
  have ne: "?trl \<noteq> []" by simp
  have c: "is_Continue (train_pass example_torch 1 1 ?trl example_state)"
    by (rule example_train_pass_Continue)
  note w = epoch_metric_average[where T = example_torch and n = 1 and trl = ?trl
      and dvl = "[example_sample]" and e = 1 and s = example_state and rs = "[1, 2]"]
  from w have av: "average (map Fin [1, 2]) = Fin (sum_list [1, 2] / real (length [1, 2 :: real]))"
    by blast
  from w ne c obtain evs where e: "trace (state_of ?r) = trace example_state @ evs"
    and l: "metric_logs evs = [] \<or> metric_logs evs
        = map (\<lambda>m. (metric_name m, average (recorded m evs), 1))
            [D_loss, Mse_loss, Tv_loss, Adv_loss, G_loss]"
    and n: "metric_logs evs \<noteq> []"
    by blast
  from e have evs: "evs = trace (state_of ?r)" by (simp add: example_state_def)
  from l n have "metric_logs evs = map (\<lambda>m. (metric_name m, average (recorded m evs), 1))
            [D_loss, Mse_loss, Tv_loss, Adv_loss, G_loss]" by blast
  then have "metric_logs (trace (state_of ?r))
      = [(''d_loss'', Fin (3 / 2), 1), (''mse_loss'', Fin 1, 1), (''tv_loss'', Fin 3, 1),
         (''adv_loss'', Fin 2, 1), (''g_loss'', Fin (1 + 8389 / 4194304), 1)]"
    unfolding evs by (rule trans) (rule example_epoch_recorded)
  moreover from av have "average (map Fin [1, 2]) = Fin (3 / 2)" by simp
  ultimately show ?thesis using ne c by blast
qed

lemma example_run_returns:
  "is_Return (main example_torch \<lparr>num_epochs = 5, check_point = - 1\<rparr> [example_batch]
      [example_sample] example_state)"
  by (simp add: run_defs)

theorem unhealthy_gradients_abort_run_witness:
  "check_grads (parametersD example_torch (nets (example_state\<lparr>nets := 4\<rparr>))) ''D''
     = Inr ([''WARNING!D gradients mean is over 100.''], False)
   \<and> train_batch example_torch 1 1 example_batch (example_state\<lparr>nets := 4\<rparr>)
     = Return (emit [Print ''WARNING!D gradients mean is over 100.''] (example_state\<lparr>nets := 4\<rparr>))
   \<and> for_each (train_batch example_torch 1 1) [example_batch, example_batch]
        (example_state\<lparr>nets := 4\<rparr>)
     = Return (emit [Print ''WARNING!D gradients mean is over 100.''] (example_state\<lparr>nets := 4\<rparr>))
   \<and> check_grads (parametersD example_torch_G (nets (example_state\<lparr>nets := 1\<rparr>))) ''D''
     = Inr ([], True)
   \<and> check_grads (parametersG example_torch_G
        (nets (snd (train_D example_torch_G example_batch (example_state\<lparr>nets := 1\<rparr>))))) ''G''
     = Inr ([''WARNING!G gradients mean is over 100.''], False)
   \<and> train_batch example_torch_G 1 1 example_batch (example_state\<lparr>nets := 1\<rparr>)
     = Return (emit [Print ''WARNING!G gradients mean is over 100.'']
         (snd (train_D example_torch_G example_batch (example_state\<lparr>nets := 1\<rparr>))))
   \<and> is_Return (main example_torch \<lparr>num_epochs = 5, check_point = - 1\<rparr> [example_batch]
        [example_sample] example_state)
   \<and> guarded example_state (main example_torch \<lparr>num_epochs = 5, check_point = - 1\<rparr>
        [example_batch] [example_sample] example_state)"
proof -
  let ?sD = "example_state\<lparr>nets := 4\<rparr>"
  let ?sG = "example_state\<lparr>nets := 1\<rparr>"
  have d: "check_grads (parametersD example_torch (nets ?sD)) ''D''
     = Inr ([''WARNING!D gradients mean is over 100.''], False)"
    by (simp add: check_grads_def np_any_def np_mean_def np_max_def is_nan_def
          example_torch_def example_state_def)
  have g1: "check_grads (parametersD example_torch_G (nets ?sG)) ''D'' = Inr ([], True)"
    by (simp add: check_grads_def np_any_def np_mean_def np_max_def is_nan_def
          example_torch_def example_torch_G_def example_state_def)
  have g2: "check_grads (parametersG example_torch_G
        (nets (snd (train_D example_torch_G example_batch ?sG)))) ''G''
     = Inr ([''WARNING!G gradients mean is over 100.''], False)"
    by (simp add: check_grads_def np_any_def np_mean_def np_max_def is_nan_def
          train_D_def emit_def Let_def
          example_torch_def example_torch_G_def example_state_def example_batch_def)
  note w1 = unhealthy_gradients_abort_run[where T = example_torch and s = ?sD
      and w = "[''WARNING!D gradients mean is over 100.'']" and e = 1 and n = 1
      and b = example_batch and bs = "[example_batch]" and s0 = example_state
      and opt = "\<lparr>num_epochs = 5, check_point = - 1\<rparr>" and trl = "[example_batch]"
      and dvl = "[example_sample]"]
  note w2 = unhealthy_gradients_abort_run[where T = example_torch_G and s = ?sG
      and w = "[''WARNING!G gradients mean is over 100.'']" and e = 1 and n = 1
      and b = example_batch and bs = "[]" and s0 = example_state
      and opt = "\<lparr>num_epochs = 5, check_point = - 1\<rparr>" and trl = "[example_batch]"
      and dvl = "[example_sample]"]
  from w1 d have a1: "train_batch example_torch 1 1 example_batch ?sD
     = Return (emit (map Print [''WARNING!D gradients mean is over 100.'']) ?sD)"
    and a2: "for_each (train_batch example_torch 1 1) [example_batch, example_batch] ?sD
     = Return (emit (map Print [''WARNING!D gradients mean is over 100.'']) ?sD)"
    and a3: "guarded example_state (main example_torch \<lparr>num_epochs = 5, check_point = - 1\<rparr>
        [example_batch] [example_sample] example_state)"
    by blast+
  from w2 g1 g2 have b1: "train_batch example_torch_G 1 1 example_batch ?sG
     = Return (emit (map Print [''WARNING!G gradients mean is over 100.''])
         (snd (train_D example_torch_G example_batch ?sG)))"
    by blast
  show ?thesis using d a1 a2 a3 g1 g2 b1 example_run_returns by simp
qed

lemma example_load_paths:
  "load_paths example_torch (- 2)
     = [''cp/netG_epoch_-2_cpu.pth'', ''cp/netD_epoch_-2_cpu.pth'',
        ''cp/optimizerG_epoch_-2_cpu.pth'', ''cp/optimizerD_epoch_-2_cpu.pth'']"
  by (simp add: load_paths_def load_components_def checkpoint_path_def device_tag_def
        example_torch_def str_int_def str_nat.simps digit_char_def)

text \<open>
  Claim C10 as stated fails: with check_point = -2 and the four files named for epoch -2
  present, no file-access error is raised. The four files are loaded, epoch 1 is trained and
  the run completes.
\<close>

theorem negative_check_point_resumes_counterexample:
  "check_point \<lparr>num_epochs = 1, check_point = - 2\<rparr> < - 1
   \<and> is_Continue (main example_torch \<lparr>num_epochs = 1, check_point = - 2\<rparr> [example_batch]
        [example_sample]
        (example_state\<lparr>files := {''cp/netG_epoch_-2_cpu.pth'', ''cp/netD_epoch_-2_cpu.pth'',
           ''cp/optimizerG_epoch_-2_cpu.pth'', ''cp/optimizerD_epoch_-2_cpu.pth''}\<rparr>))
   \<and> marks (trace (state_of (main example_torch \<lparr>num_epochs = 1, check_point = - 2\<rparr>
        [example_batch] [example_sample]
        (example_state\<lparr>files := {''cp/netG_epoch_-2_cpu.pth'', ''cp/netD_epoch_-2_cpu.pth'',
           ''cp/optimizerG_epoch_-2_cpu.pth'', ''cp/optimizerD_epoch_-2_cpu.pth''}\<rparr>))))
      = [Loaded ''cp/netG_epoch_-2_cpu.pth'', Loaded ''cp/netD_epoch_-2_cpu.pth'',
         Loaded ''cp/optimizerG_epoch_-2_cpu.pth'', Loaded ''cp/optimizerD_epoch_-2_cpu.pth'',
         Trained 1]"
  by (simp add: run_defs)

theorem check_point_selects_start_witness:
  "check_point \<lparr>num_epochs = 1, check_point = - 1\<rparr> = - 1
   \<and> take 5 (marks (trace (state_of (main example_torch \<lparr>num_epochs = 1, check_point = - 1\<rparr>
        [example_batch] [example_sample] example_state))))
      = [Pretrained 1, Pretrained 2, Pretrained 3, Pretrained 4, Pretrained 5]
   \<and> check_point \<lparr>num_epochs = 1, check_point = - 2\<rparr> \<noteq> - 1
   \<and> set (load_paths example_torch (- 2))
        \<subseteq> files (example_state\<lparr>files := {''cp/netG_epoch_-2_cpu.pth'',
             ''cp/netD_epoch_-2_cpu.pth'', ''cp/optimizerG_epoch_-2_cpu.pth'',
             ''cp/optimizerD_epoch_-2_cpu.pth''}\<rparr>)
   \<and> take 4 (marks (trace (state_of (main example_torch \<lparr>num_epochs = 1, check_point = - 2\<rparr>
        [example_batch] [example_sample]
        (example_state\<lparr>files := {''cp/netG_epoch_-2_cpu.pth'', ''cp/netD_epoch_-2_cpu.pth'',
           ''cp/optimizerG_epoch_-2_cpu.pth'', ''cp/optimizerD_epoch_-2_cpu.pth''}\<rparr>)))))
      = [Loaded ''cp/netG_epoch_-2_cpu.pth'', Loaded ''cp/netD_epoch_-2_cpu.pth'',
         Loaded ''cp/optimizerG_epoch_-2_cpu.pth'', Loaded ''cp/optimizerD_epoch_-2_cpu.pth'']
   \<and> (1::nat) < 4
   \<and> set (take 1 (load_paths example_torch (- 2)))
        \<subseteq> files (example_state\<lparr>files := {''cp/netG_epoch_-2_cpu.pth''}\<rparr>)
   \<and> load_paths example_torch (- 2) ! 1
        \<notin> files (example_state\<lparr>files := {''cp/netG_epoch_-2_cpu.pth''}\<rparr>)
   \<and> marks (trace (state_of (main example_torch \<lparr>num_epochs = 1, check_point = - 2\<rparr>
        [example_batch] [example_sample]
        (example_state\<lparr>files := {''cp/netG_epoch_-2_cpu.pth''}\<rparr>))))
      = [Loaded ''cp/netG_epoch_-2_cpu.pth'']
   \<and> (\<exists>s'. main example_torch \<lparr>num_epochs = 1, check_point = - 2\<rparr>
        [example_batch] [example_sample]
        (example_state\<lparr>files := {''cp/netG_epoch_-2_cpu.pth''}\<rparr>)
      = Raise (FileNotFoundError ''cp/netD_epoch_-2_cpu.pth'') s')
   \<and> check_point \<lparr>num_epochs = 1, check_point = - 2\<rparr> < - 1
   \<and> load_paths example_torch (- 2)
        = [''cp/netG_epoch_-2_cpu.pth'', ''cp/netD_epoch_-2_cpu.pth'',
           ''cp/optimizerG_epoch_-2_cpu.pth'', ''cp/optimizerD_epoch_-2_cpu.pth'']
   \<and> epoch_range (- 2) 1 = [1]"
proof -
  let ?o1 = "\<lparr>num_epochs = 1, check_point = - 1\<rparr>"
  let ?o2 = "\<lparr>num_epochs = 1, check_point = - 2\<rparr>"
  let ?all = "example_state\<lparr>files := {''cp/netG_epoch_-2_cpu.pth'',
             ''cp/netD_epoch_-2_cpu.pth'', ''cp/optimizerG_epoch_-2_cpu.pth'',
             ''cp/optimizerD_epoch_-2_cpu.pth''}\<rparr>"
  let ?one = "example_state\<lparr>files := {''cp/netG_epoch_-2_cpu.pth''}\<rparr>"
  let ?paths = "[''cp/netG_epoch_-2_cpu.pth'', ''cp/netD_epoch_-2_cpu.pth'',
        ''cp/optimizerG_epoch_-2_cpu.pth'', ''cp/optimizerD_epoch_-2_cpu.pth'']"
  have p: "load_paths example_torch (- 2) = ?paths" by (rule example_load_paths)
  have t: "marks (trace example_state) = []" "marks (trace ?all) = []" "marks (trace ?one) = []"
    by (simp_all add: example_state_def)
  have u: "[1..1] = [1 :: int]" by (simp add: upto.simps)
  have h1: "check_point ?o1 = - 1" by simp
  have h2: "check_point ?o2 \<noteq> - 1 \<and> set (load_paths example_torch (check_point ?o2)) \<subseteq> files ?all"
    by (simp add: p)
  have h3: "(1::nat) < 4" by simp
  have h4: "check_point ?o2 \<noteq> - 1
      \<and> set (take 1 (load_paths example_torch (check_point ?o2))) \<subseteq> files ?one
      \<and> load_paths example_torch (check_point ?o2) ! 1 \<notin> files ?one"
    by (simp add: p)
  have h5: "check_point ?o2 < - 1" by simp
  note wf = check_point_selects_start[where opt = ?o1 and T = example_torch
      and trl = "[example_batch]" and dvl = "[example_sample]" and s = example_state]
  note wa = check_point_selects_start[where opt = ?o2 and T = example_torch
      and trl = "[example_batch]" and dvl = "[example_sample]" and s = ?all]
  note wo = check_point_selects_start[where opt = ?o2 and T = example_torch
      and trl = "[example_batch]" and dvl = "[example_sample]" and s = ?one]
  from wf h1 obtain k where "marks (trace (state_of (main example_torch ?o1 [example_batch]
        [example_sample] example_state)))
      = marks (trace example_state) @ pretrain_marks (length [example_batch])
        @ take k (epoch_marks (length [example_batch]) (epoch_range (- 1) (num_epochs ?o1)))"
    by blast
  then have a: "take 5 (marks (trace (state_of (main example_torch ?o1 [example_batch]
        [example_sample] example_state))))
      = [Pretrained 1, Pretrained 2, Pretrained 3, Pretrained 4, Pretrained 5]"
    by (simp add: t pretrain_marks_def)
  from wa h2 obtain k where "marks (trace (state_of (main example_torch ?o2 [example_batch]
        [example_sample] ?all)))
      = marks (trace ?all) @ map Loaded (load_paths example_torch (check_point ?o2))
        @ take k (epoch_marks (length [example_batch])
                   (epoch_range (check_point ?o2) (num_epochs ?o2)))"
    by blast
  then have b: "take 4 (marks (trace (state_of (main example_torch ?o2 [example_batch]
        [example_sample] ?all)))) = map Loaded ?paths"
    by (simp add: t p)
  from wo h3 h4 have c1: "marks (trace (state_of (main example_torch ?o2 [example_batch]
        [example_sample] ?one)))
      = marks (trace ?one) @ map Loaded (take 1 (load_paths example_torch (check_point ?o2)))"
    and c2: "\<exists>s'. main example_torch ?o2 [example_batch] [example_sample] ?one
      = Raise (FileNotFoundError (load_paths example_torch (check_point ?o2) ! 1)) s'"
    by blast+
  from wo h5 have d1: "load_paths example_torch (check_point ?o2)
        = map (\<lambda>component. ''cp/'' @ component @ ''_epoch_-''
                 @ str_nat (nat (- check_point ?o2)) @ ''_'' @ device_tag example_torch @ ''.pth'')
            load_components"
    and d2: "epoch_range (check_point ?o2) (num_epochs ?o2) = [1..num_epochs ?o2]"
    by blast+
  have c1': "marks (trace (state_of (main example_torch ?o2 [example_batch]
        [example_sample] ?one))) = [Loaded ''cp/netG_epoch_-2_cpu.pth'']"
    using c1 by (simp add: t p)
  have c2': "\<exists>s'. main example_torch ?o2 [example_batch] [example_sample] ?one
      = Raise (FileNotFoundError ''cp/netD_epoch_-2_cpu.pth'') s'"
    using c2 by (simp add: p)
  have d1': "load_paths example_torch (- 2) = ?paths"
    using d1 by (simp add: load_components_def device_tag_def example_torch_def
          str_nat.simps digit_char_def)
  have d2': "epoch_range (- 2) 1 = [1]" using d2 by (simp add: u)
  from a b c1' c2' d1' d2' h2 h4 show ?thesis by (simp add: p)
qed

end
